theory Spec2Isabelle
  imports Complex_Main "HOL-Library.Char_ord" "HOL-Library.List_Lexorder"
begin

section \<open>Data received from the intelligence provider\<close>

text \<open>
  Both scanner modules (\<^verbatim>\<open>Scanner.py\<close> and \<^verbatim>\<open>scanner1.py\<close>) define a class
  \<^verbatim>\<open>SolanaTokenScanner\<close> with the same method names.  Methods whose bodies agree in
  both modules are embedded once; methods that differ are embedded twice, with the
  prefix \<open>Scanner_\<close> or \<open>scanner1_\<close>.

  A JSON object entry that the code reads with \<^verbatim>\<open>d.get(k)\<close> can be missing, can be
  \<^verbatim>\<open>null\<close>, or can hold a value.  Where the code tells the three apart (a
  \<^verbatim>\<open>.get(k, {}).get(...)\<close> chain raises on \<^verbatim>\<open>null\<close> only) the entry is a
  \<open>jfield\<close>; where it does not (a truthiness test follows) the entry is an option.
\<close>

datatype 'a jfield = Absent | Null | Present 'a

datatype error = AttributeError | TypeError | ValueError | NameError | IndexError

text \<open>
  A transfer record.  \<open>fromAddress\<close>, \<open>toAddress\<close>, \<open>fromAddressEntity\<close> and
  \<open>fromAddressLabel\<close> are nested objects of which the code reads one entry only
  (\<^verbatim>\<open>'address'\<close>, respectively \<^verbatim>\<open>'name'\<close>); the payload of \<open>Present\<close> is that entry.
\<close>

record transfer =
  blockTimestamp :: "string option"
  fromAddress :: "string option jfield"
  toAddress :: "string option jfield"
  fromAddressEntity :: "string option jfield"
  fromAddressLabel :: "string option jfield"

text \<open>The two shapes of a \<^verbatim>\<open>/transfers\<close> response: a bare list, or an object whose
  \<^verbatim>\<open>'transfers'\<close> entry (if any) is the list.\<close>

datatype transfers_json = JList "transfer list" | JDict "transfer list option"

datatype query = QTo string | QBase string | QFrom string

text \<open>An object with a \<^verbatim>\<open>'name'\<close> entry (\<^verbatim>\<open>arkhamEntity\<close>, \<^verbatim>\<open>arkhamLabel\<close>), and the
  response of \<^verbatim>\<open>/intelligence/address/<a>\<close>.  \<open>None\<close> stands for a missing, null or
  empty object: the code only tests these for truth.\<close>

record named =
  name :: "string jfield"

record intel =
  arkhamEntity :: "named option"
  arkhamLabel :: "named option"

text \<open>A record of \<^verbatim>\<open>/history/address/<a>\<close> and the response: the \<^verbatim>\<open>'solana'\<close> entry, if
  it is a list.\<close>

record hist_record =
  time :: "string jfield"

datatype history_json = HDict "hist_record list option"

text \<open>
  A \<^verbatim>\<open>datetime\<close>: the microseconds of its wall-clock fields since the epoch, and its
  UTC offset in microseconds when it is timezone-aware.  A \<^verbatim>\<open>timedelta\<close> is a number
  of microseconds.
\<close>

record datetime =
  wall :: int
  utcoffset :: "int option"

text \<open>
  The environment of a scan: what \<^verbatim>\<open>_get\<close> returns for each request (\<open>None\<close> when
  the three attempts fail), what \<^verbatim>\<open>datetime.fromisoformat\<close> returns for a string
  (\<open>None\<close> when it raises \<^verbatim>\<open>ValueError\<close>), and the clock reading taken in the loop
  iteration of a given depth.  A request is answered the same way each time it is
  made during one scan.
\<close>

record env =
  intelligence :: "string \<Rightarrow> intel option"
  transfers :: "query \<Rightarrow> transfers_json option"
  history :: "string \<Rightarrow> history_json option"
  fromisoformat :: "string \<Rightarrow> datetime option"
  clock :: "nat \<Rightarrow> int"

section \<open>Python primitives\<close>

definition truthy :: "string option \<Rightarrow> bool" where
  "truthy s = (case s of None \<Rightarrow> False | Some v \<Rightarrow> v \<noteq> [])"

text \<open>\<^verbatim>\<open>(d.get(k) or {}).get(k2)\<close>: never raises.\<close>

definition get_or_empty :: "'a option jfield \<Rightarrow> 'a option" where
  "get_or_empty f = (case f of Present v \<Rightarrow> v | _ \<Rightarrow> None)"

text \<open>\<^verbatim>\<open>d.get(k, {}).get(k2)\<close>: the default applies to a missing entry only, and
  \<^verbatim>\<open>None.get\<close> raises.\<close>

definition get_default_empty :: "'a option jfield \<Rightarrow> error + 'a option" where
  "get_default_empty f =
     (case f of Absent \<Rightarrow> Inr None | Null \<Rightarrow> Inl AttributeError | Present v \<Rightarrow> Inr v)"

text \<open>\<^verbatim>\<open>str.lower\<close> on ASCII text, and \<^verbatim>\<open>sub in s\<close>.\<close>

definition lower_char :: "char \<Rightarrow> char" where
  "lower_char c =
     (if CHR ''A'' \<le> c \<and> c \<le> CHR ''Z'' then char_of (of_char c + (32::nat)) else c)"

definition lower :: "string \<Rightarrow> string" where
  "lower s = map lower_char s"

fun startswith :: "string \<Rightarrow> string \<Rightarrow> bool" where
  "startswith s [] = True"
| "startswith [] (c # sub) = False"
| "startswith (d # s) (c # sub) = (d = c \<and> startswith s sub)"

fun contains :: "string \<Rightarrow> string \<Rightarrow> bool" where
  "contains [] sub = (sub = [])"
| "contains (d # s) sub = (startswith (d # s) sub \<or> contains s sub)"

text \<open>\<^verbatim>\<open>ts.replace('Z', '+00:00')\<close>.\<close>

definition replace_Z :: "string \<Rightarrow> string" where
  "replace_Z ts = concat (map (\<lambda>c. if c = CHR ''Z'' then ''+00:00'' else [c]) ts)"

text \<open>Subtracting datetimes: both naive or both aware, otherwise \<^verbatim>\<open>TypeError\<close>.\<close>

definition dt_sub :: "datetime \<Rightarrow> datetime \<Rightarrow> error + int" where
  "dt_sub a b =
     (case (utcoffset a, utcoffset b) of
        (None, None) \<Rightarrow> Inr (wall a - wall b)
      | (Some oa, Some ob) \<Rightarrow> Inr ((wall a - oa) - (wall b - ob))
      | _ \<Rightarrow> Inl TypeError)"

text \<open>\<^verbatim>\<open>timedelta.days\<close> and \<^verbatim>\<open>timedelta.seconds\<close>: the normalised fields, days rounded
  towards minus infinity.\<close>

definition days :: "int \<Rightarrow> int" where
  "days delta = delta div 86400000000"

definition seconds :: "int \<Rightarrow> int" where
  "seconds delta = (delta mod 86400000000) div 1000000"

text \<open>\<^verbatim>\<open>sorted(xs, key=f)[0]\<close> on a non-empty list: Python's sort is stable, and so is
  \<open>sort_key\<close>.\<close>

definition sorted_first :: "('a \<Rightarrow> string) \<Rightarrow> 'a list \<Rightarrow> 'a option" where
  "sorted_first f xs = (case sort_key f xs of [] \<Rightarrow> None | x # _ \<Rightarrow> Some x)"

section \<open>Methods common to both modules\<close>

text \<open>\<^verbatim>\<open>_normalize_transfers_list\<close>.  A \<^verbatim>\<open>null\<close> under \<^verbatim>\<open>'transfers'\<close> is returned as it
  is by the code and is false in every test that follows, as the empty list is.\<close>

definition normalize_transfers_list :: "transfers_json option \<Rightarrow> transfer list" where
  "normalize_transfers_list data =
     (case data of
        None \<Rightarrow> []
      | Some (JList l) \<Rightarrow> l
      | Some (JDict None) \<Rightarrow> []
      | Some (JDict (Some l)) \<Rightarrow> l)"

text \<open>The loop of \<^verbatim>\<open>analyze_dispersion_pattern\<close> that fills the set \<^verbatim>\<open>receivers\<close>.\<close>

fun add_receivers :: "transfer list \<Rightarrow> string set \<Rightarrow> error + string set" where
  "add_receivers [] receivers = Inr receivers"
| "add_receivers (tx # rest) receivers =
     (case get_default_empty (toAddress tx) of
        Inl e \<Rightarrow> Inl e
      | Inr to_addr \<Rightarrow>
          (case to_addr of
             None \<Rightarrow> add_receivers rest receivers
           | Some a \<Rightarrow>
               if a \<noteq> [] then add_receivers rest (insert a receivers)
               else add_receivers rest receivers))"

text \<open>
  \<^verbatim>\<open>analyze_dispersion_pattern\<close>.  The quotient \<^verbatim>\<open>len(receivers) / len(tx_list)\<close> is a
  float in the code; for lengths below \<open>2 ^ 53\<close> (the request asks for 100 records)
  the rounded quotient exceeds 0.5 exactly when the exact one does, so the quotient is
  taken in the reals.
\<close>

definition analyze_dispersion_pattern :: "env \<Rightarrow> string option \<Rightarrow> error + bool" where
  "analyze_dispersion_pattern e address =
     (case address of
        None \<Rightarrow> Inr False
      | Some a \<Rightarrow>
          if a = [] then Inr False
          else
            let tx_list = normalize_transfers_list (transfers e (QFrom a)) in
            if tx_list = [] \<or> length tx_list < 20 then Inr False
            else
              (case add_receivers tx_list {} of
                 Inl err \<Rightarrow> Inl err
               | Inr receivers \<Rightarrow>
                   let unique_ratio = real (card receivers) / real (length tx_list) in
                   if unique_ratio > 1 / 2 \<and> card receivers > 20 then Inr True
                   else Inr False))"

text \<open>The set of distinct non-empty destination addresses of a list of transfers.\<close>

definition unique_receivers :: "transfer list \<Rightarrow> string set" where
  "unique_receivers tx_list =
     set (concat (map (\<lambda>tx. case toAddress tx of
                              Present (Some a) \<Rightarrow> if a \<noteq> [] then [a] else []
                            | _ \<Rightarrow> []) tx_list))"

section \<open>Entity classifier\<close>

text \<open>The verdict of \<^verbatim>\<open>check_database_status\<close>; \<open>entity\<close> and \<open>reason\<close> are the two entries
  of its \<^verbatim>\<open>'details'\<close> object.\<close>

record db_status =
  status :: string
  risk_score :: int
  label :: string
  flags :: "string list"
  entity :: string
  reason :: string

text \<open>\<^verbatim>\<open>x.get('name', "Unknown") if x else "Unknown"\<close>: a \<^verbatim>\<open>null\<close> name is returned as
  \<^verbatim>\<open>None\<close>.\<close>

definition name_or_unknown :: "named option \<Rightarrow> string option" where
  "name_or_unknown x =
     (case x of
        None \<Rightarrow> Some ''Unknown''
      | Some n \<Rightarrow>
          (case name n of Absent \<Rightarrow> Some ''Unknown'' | Null \<Rightarrow> None | Present s \<Rightarrow> Some s))"

text \<open>\<^verbatim>\<open>(entity_name + " " + label_name).lower()\<close>: adding \<^verbatim>\<open>None\<close> to a string raises.\<close>

definition full_name_of :: "string option \<Rightarrow> string option \<Rightarrow> error + string" where
  "full_name_of entity_name label_name =
     (case (entity_name, label_name) of
        (Some e_name, Some l_name) \<Rightarrow> Inr (lower (e_name @ '' '' @ l_name))
      | _ \<Rightarrow> Inl TypeError)"

definition scanner1_cex_keywords :: "string list" where
  "scanner1_cex_keywords =
     [''binance'', ''coinbase'', ''kraken'', ''okx'', ''bybit'', ''kucoin'', ''gate.io'',
      ''htx'', ''bitget'', ''upbit'', ''crypto.com'', ''circle'', ''tether'']"

definition Scanner_cex_keywords :: "string list" where
  "Scanner_cex_keywords =
     [''binance'', ''coinbase'', ''kraken'', ''okx'', ''bybit'', ''kucoin'', ''gate.io'',
      ''htx'', ''bitget'', ''upbit'', ''crypto.com'']"

definition scanner1_bad_keywords :: "string list" where
  "scanner1_bad_keywords = [''scam'', ''phishing'', ''rug'', ''exploit'', ''hack'', ''heist'']"

definition Scanner_bad_keywords :: "string list" where
  "Scanner_bad_keywords =
     [''scam'', ''phish'', ''phishing'', ''rug'', ''rugpull'', ''exploit'', ''hack'', ''heist'']"

text \<open>
  \<^verbatim>\<open>check_database_status\<close>.  The two modules differ in the keyword lists and in the
  score of an established project, which are the parameters here.
\<close>

definition check_database_status_with ::
  "string list \<Rightarrow> string list \<Rightarrow> int \<Rightarrow> env \<Rightarrow> string \<Rightarrow> error + db_status option" where
  "check_database_status_with bad_keywords cex_keywords established_score e token_address =
     (case intelligence e token_address of
        None \<Rightarrow> Inr None
      | Some data \<Rightarrow>
          if arkhamEntity data = None \<and> arkhamLabel data = None then Inr None
          else
            let entity_name = name_or_unknown (arkhamEntity data);
                label_name = name_or_unknown (arkhamLabel data)
            in
            (case full_name_of entity_name label_name of
               Inl err \<Rightarrow> Inl err
             | Inr full_name \<Rightarrow>
                 let e_name = (case entity_name of Some s \<Rightarrow> s | None \<Rightarrow> []);
                     l_name = (case label_name of Some s \<Rightarrow> s | None \<Rightarrow> [])
                 in
                 if list_ex (\<lambda>bad. contains full_name bad) bad_keywords then
                   Inr (Some \<lparr>status = ''KNOWN'', risk_score = 100, label = ''HIGH'',
                     flags = [''Arkham Database Flagged: '' @ (if e_name \<noteq> [] then e_name else l_name)],
                     entity = e_name, reason = ''Database Blacklist''\<rparr>)
                 else if list_ex (\<lambda>good. contains full_name good) cex_keywords then
                   Inr (Some \<lparr>status = ''KNOWN'', risk_score = 0, label = ''LOW'',
                     flags = [''Trusted Entity Verified: '' @ e_name],
                     entity = e_name, reason = ''Trusted Issuer''\<rparr>)
                 else if arkhamEntity data \<noteq> None then
                   Inr (Some \<lparr>status = ''KNOWN'', risk_score = established_score,
                     label = ''LOW'', flags = [''Established Project: '' @ e_name],
                     entity = e_name, reason = ''Known Entity''\<rparr>)
                 else Inr None))"

definition scanner1_check_database_status :: "env \<Rightarrow> string \<Rightarrow> error + db_status option" where
  "scanner1_check_database_status =
     check_database_status_with scanner1_bad_keywords scanner1_cex_keywords 10"

definition Scanner_check_database_status :: "env \<Rightarrow> string \<Rightarrow> error + db_status option" where
  "Scanner_check_database_status =
     check_database_status_with Scanner_bad_keywords Scanner_cex_keywords 0"

text \<open>An optional string formatted by an f-string.\<close>

definition format_opt :: "string option \<Rightarrow> string" where
  "format_opt a = (case a of None \<Rightarrow> ''None'' | Some s \<Rightarrow> s)"

text \<open>\<^verbatim>\<open>check_is_known_entity\<close> of \<^verbatim>\<open>Scanner.py\<close>; \<^verbatim>\<open>entity.get('name', '').lower()\<close> raises
  on a \<^verbatim>\<open>null\<close> name.\<close>

definition check_is_known_entity :: "env \<Rightarrow> string option \<Rightarrow> error + bool \<times> string option" where
  "check_is_known_entity e address =
     (case intelligence e (format_opt address) of
        None \<Rightarrow> Inr (False, None)
      | Some data \<Rightarrow>
          (case arkhamEntity data of
             None \<Rightarrow> Inr (False, None)
           | Some ent \<Rightarrow>
               (case name ent of
                  Null \<Rightarrow> Inl AttributeError
                | Absent \<Rightarrow>
                    if list_ex (\<lambda>k. contains (lower []) k) Scanner_cex_keywords
                    then Inr (True, None) else Inr (False, None)
                | Present s \<Rightarrow>
                    if list_ex (\<lambda>k. contains (lower s) k) Scanner_cex_keywords
                    then Inr (True, Some s) else Inr (False, None))))"

section \<open>Wallet age and funding link\<close>

text \<open>
  \<^verbatim>\<open>get_true_age_via_history\<close> of \<^verbatim>\<open>scanner1.py\<close>.  The sort key of a record is its
  \<^verbatim>\<open>'time'\<close>, \<^verbatim>\<open>'9999-12-31'\<close> when it has none; a \<^verbatim>\<open>null\<close> time is the key
  \<^verbatim>\<open>None\<close>, on which the comparison of the sort raises as soon as there are two
  records.  The \<^verbatim>\<open>try\<close> block turns that, and a string that does not parse, into
  \<^verbatim>\<open>None\<close>.
\<close>

definition history_key :: "hist_record \<Rightarrow> string option" where
  "history_key x =
     (case time x of Absent \<Rightarrow> Some ''9999-12-31'' | Null \<Rightarrow> None | Present s \<Rightarrow> Some s)"

definition get_true_age_via_history :: "env \<Rightarrow> string \<Rightarrow> datetime option" where
  "get_true_age_via_history e address =
     (case history e address of
        None \<Rightarrow> None
      | Some (HDict None) \<Rightarrow> None
      | Some (HDict (Some history_list)) \<Rightarrow>
          if history_list = [] then None
          else if 2 \<le> length history_list \<and> list_ex (\<lambda>x. history_key x = None) history_list
          then None
          else
            (case sorted_first (\<lambda>x. case history_key x of Some s \<Rightarrow> s | None \<Rightarrow> [])
                    history_list of
               None \<Rightarrow> None
             | Some first_record \<Rightarrow>
                 (case time first_record of
                    Present first_ts \<Rightarrow>
                      if first_ts \<noteq> [] then fromisoformat e (replace_Z first_ts) else None
                  | _ \<Rightarrow> None)))"

text \<open>The object returned by \<^verbatim>\<open>get_address_details\<close>.  \<^verbatim>\<open>Scanner.py\<close> returns it
  without \<^verbatim>\<open>'funder_entity'\<close> and \<^verbatim>\<open>'tx_count'\<close>, and never reads them.\<close>

record details =
  d_address :: string
  creation_time :: "datetime option"
  funder :: "string option"
  funder_entity :: "string option"
  tx_count :: nat

definition timestamp_key :: "transfer \<Rightarrow> string" where
  "timestamp_key t = (case blockTimestamp t of Some ts \<Rightarrow> ts | None \<Rightarrow> [])"

text \<open>The transfers fetched for an address (incoming ones, else all), and the earliest
  of those with a timestamp.\<close>

definition fetch_tx_list :: "env \<Rightarrow> string \<Rightarrow> transfer list" where
  "fetch_tx_list e a =
     (let tx_list = normalize_transfers_list (transfers e (QTo a)) in
      if tx_list = [] then normalize_transfers_list (transfers e (QBase a)) else tx_list)"

definition valid_txs_of :: "transfer list \<Rightarrow> transfer list" where
  "valid_txs_of tx_list = filter (\<lambda>t. truthy (blockTimestamp t)) tx_list"

text \<open>\<^verbatim>\<open>creation_time\<close> from the timestamp of the first transfer; a string that does not
  parse raises.\<close>

definition parse_creation_time :: "env \<Rightarrow> string option \<Rightarrow> error + datetime option" where
  "parse_creation_time e ts =
     (case ts of
        None \<Rightarrow> Inr None
      | Some s \<Rightarrow>
          if s = [] then Inr None
          else (case fromisoformat e (replace_Z s) of
                  None \<Rightarrow> Inl ValueError
                | Some ct \<Rightarrow> Inr (Some ct)))"

definition scanner1_get_address_details :: "env \<Rightarrow> string option \<Rightarrow> error + details option" where
  "scanner1_get_address_details e address =
     (case address of
        None \<Rightarrow> Inr None
      | Some a \<Rightarrow>
          if a = [] then Inr None
          else
            let tx_list = fetch_tx_list e a in
            if tx_list = [] then
              Inr (Some \<lparr>d_address = a, creation_time = None, funder = None,
                funder_entity = None, tx_count = 0\<rparr>)
            else
              let valid_txs = valid_txs_of tx_list in
              if valid_txs = [] then
                Inr (Some \<lparr>d_address = a, creation_time = None, funder = None,
                  funder_entity = None, tx_count = 0\<rparr>)
              else
                (case sorted_first timestamp_key valid_txs of
                   None \<Rightarrow> Inl IndexError
                 | Some first_tx \<Rightarrow>
                     (case parse_creation_time e (blockTimestamp first_tx) of
                        Inl err \<Rightarrow> Inl err
                      | Inr ct \<Rightarrow>
                          let entity_str =
                                (if truthy (get_or_empty (fromAddressEntity first_tx))
                                 then get_or_empty (fromAddressEntity first_tx)
                                 else get_or_empty (fromAddressLabel first_tx));
                              from_addr = get_or_empty (fromAddress first_tx);
                              to_addr = get_or_empty (toAddress first_tx);
                              (funder_address, funder_entity_name) =
                                (if to_addr = Some a \<and> truthy from_addr
                                 then (from_addr, entity_str) else (None, None));
                              (funder_address', funder_entity_name') =
                                (if funder_address = Some a then (None, None)
                                 else (funder_address, funder_entity_name))
                          in
                          Inr (Some \<lparr>d_address = a, creation_time = ct,
                            funder = funder_address', funder_entity = funder_entity_name',
                            tx_count = length tx_list\<rparr>))))"

text \<open>\<^verbatim>\<open>Scanner.py\<close>: the creation time loses its timezone, and the addresses are read a
  second time with \<^verbatim>\<open>.get(k, {}).get('address')\<close>, which raises on a \<^verbatim>\<open>null\<close> entry.\<close>

definition Scanner_get_address_details :: "env \<Rightarrow> string option \<Rightarrow> error + details option" where
  "Scanner_get_address_details e address =
     (case address of
        None \<Rightarrow> Inr None
      | Some a \<Rightarrow>
          if a = [] then Inr None
          else
            let tx_list = fetch_tx_list e a in
            if tx_list = [] then
              Inr (Some \<lparr>d_address = a, creation_time = None, funder = None,
                funder_entity = None, tx_count = 0\<rparr>)
            else
              let valid_txs = valid_txs_of tx_list in
              if valid_txs = [] then
                Inr (Some \<lparr>d_address = a, creation_time = None, funder = None,
                  funder_entity = None, tx_count = 0\<rparr>)
              else
                (case sorted_first timestamp_key valid_txs of
                   None \<Rightarrow> Inl IndexError
                 | Some first_tx \<Rightarrow>
                     (case parse_creation_time e (blockTimestamp first_tx) of
                        Inl err \<Rightarrow> Inl err
                      | Inr ct \<Rightarrow>
                          (case get_default_empty (fromAddress first_tx) of
                             Inl err \<Rightarrow> Inl err
                           | Inr from_addr \<Rightarrow>
                               (case get_default_empty (toAddress first_tx) of
                                  Inl err \<Rightarrow> Inl err
                                | Inr to_addr \<Rightarrow>
                                    let funder_address =
                                          (if to_addr = Some a \<and> truthy from_addr
                                           then from_addr else None);
                                        funder_address' =
                                          (if funder_address = Some a then None
                                           else funder_address)
                                    in
                                    Inr (Some \<lparr>d_address = a,
                                      creation_time = map_option (\<lambda>d. d\<lparr>utcoffset := None\<rparr>) ct,
                                      funder = funder_address', funder_entity = None,
                                      tx_count = 0\<rparr>))))))"

section \<open>Funding provenance trace\<close>

text \<open>
  One entry of \<^verbatim>\<open>chain_info\<close>.  An entry that a layer object does not have is \<open>None\<close>
  (the known-entity layer of \<^verbatim>\<open>scanner1.py\<close> has no \<^verbatim>\<open>'age_hours'\<close>,
  \<^verbatim>\<open>'is_verified_old'\<close> and \<^verbatim>\<open>'is_distributor'\<close>; the layers of \<^verbatim>\<open>Scanner.py\<close> have no
  \<^verbatim>\<open>'age_hours'\<close> and \<^verbatim>\<open>'is_verified_old'\<close>).
\<close>

record hop =
  layer :: nat
  address :: "string option"
  age_days :: int
  age_hours :: "int option"
  is_cex :: bool
  is_verified_old :: "bool option"
  is_distributor :: "bool option"
  entity_name :: "string option"
  risk_contribution :: int
  funded_by_entity :: "string option"

text \<open>The local variables of \<^verbatim>\<open>trace_funding_source\<close> that live across iterations
  (\<^verbatim>\<open>now\<close> is bound by \<^verbatim>\<open>scanner1.py\<close> only, and only once a creation time was seen),
  and the object the method returns.\<close>

record trace_state =
  chain_info :: "hop list"
  current_addr :: "string option"
  trace_risk_score :: int
  trace_stop_reason :: string
  now :: "datetime option"

record trace_result =
  score :: int
  chain :: "hop list"
  stop_reason :: string

datatype 'a flow = Break 'a | Continue 'a

definition state_of :: "'a flow \<Rightarrow> 'a" where
  "state_of f = (case f of Break s \<Rightarrow> s | Continue s \<Rightarrow> s)"

definition result_of :: "trace_state \<Rightarrow> trace_result" where
  "result_of st =
     \<lparr>score = trace_risk_score st, chain = chain_info st, stop_reason = trace_stop_reason st\<rparr>"

subsection \<open>\<^verbatim>\<open>scanner1.py\<close>\<close>

text \<open>Age from the creation time: \<^verbatim>\<open>now\<close> is read (timezone-aware, UTC) only when
  there is a creation time.\<close>

definition scanner1_age ::
  "env \<Rightarrow> nat \<Rightarrow> datetime option \<Rightarrow> datetime option \<Rightarrow> error + int \<times> int \<times> datetime option" where
  "scanner1_age e depth ct now_var =
     (case ct of
        None \<Rightarrow> Inr (- 1, 0, now_var)
      | Some c \<Rightarrow>
          let now_read = \<lparr>wall = clock e depth, utcoffset = Some 0\<rparr> in
          (case dt_sub now_read c of
             Inl err \<Rightarrow> Inl err
           | Inr delta \<Rightarrow> Inr (days delta, seconds delta div 3600, Some now_read)))"

text \<open>The second check of the true age through the history: the new \<^verbatim>\<open>age_days\<close> and
  \<^verbatim>\<open>is_verified_old_wallet\<close>.  The URL is built with \<^verbatim>\<open>+\<close>, which raises on \<^verbatim>\<open>None\<close>;
  \<^verbatim>\<open>now\<close> raises when it was never bound.\<close>

definition scanner1_true_age ::
  "env \<Rightarrow> string option \<Rightarrow> int \<Rightarrow> nat \<Rightarrow> datetime option \<Rightarrow> error + int \<times> bool" where
  "scanner1_true_age e addr age_days0 txc now_var =
     (if age_days0 < 1 \<and> txc \<ge> 100 then
        (case addr of
           None \<Rightarrow> Inl TypeError
         | Some a \<Rightarrow>
             (case get_true_age_via_history e a of
                None \<Rightarrow> Inr (age_days0, False)
              | Some true_creation_time \<Rightarrow>
                  (case now_var of
                     None \<Rightarrow> Inl NameError
                   | Some n \<Rightarrow>
                       (case dt_sub n true_creation_time of
                          Inl err \<Rightarrow> Inl err
                        | Inr true_delta \<Rightarrow>
                            let true_age_days = days true_delta in
                            Inr (true_age_days, true_age_days > 180)))))
      else Inr (age_days0, False))"

definition scanner1_age_risk :: "nat \<Rightarrow> int \<Rightarrow> bool \<Rightarrow> int" where
  "scanner1_age_risk depth ad is_verified_old_wallet =
     (if ad \<noteq> - 1 then
        if is_verified_old_wallet then - 10
        else if depth = 0 then
          (if ad < 7 then 20 else if ad < 14 then 15 else if ad < 30 then 10 else 0)
        else
          (if ad < 30 then 15 else if ad < 60 then 10 else 0)
      else 0)"

text \<open>The distributor check of one iteration: the detector is called for an upstream
  address that is not a verified old wallet, and not otherwise.\<close>

definition scanner1_dispersion :: "env \<Rightarrow> nat \<Rightarrow> bool \<Rightarrow> string option \<Rightarrow> error + bool" where
  "scanner1_dispersion e depth is_verified_old_wallet addr =
     (if depth > 0 then
        if \<not> is_verified_old_wallet then analyze_dispersion_pattern e addr
        else Inr False
      else Inr False)"

text \<open>The layer \<^verbatim>\<open>cex_layer\<close> appended for a funder that carries an entity name.\<close>

definition scanner1_cex_layer :: "nat \<Rightarrow> details \<Rightarrow> hop" where
  "scanner1_cex_layer depth d =
     \<lparr>layer = depth + 1, address = funder d, age_days = - 1, age_hours = None,
      is_cex = True, is_verified_old = None, is_distributor = None,
      entity_name = funder_entity d, risk_contribution = - 20, funded_by_entity = None\<rparr>"

text \<open>One iteration of the loop of \<^verbatim>\<open>trace_funding_source\<close>.\<close>

definition scanner1_trace_body :: "env \<Rightarrow> nat \<Rightarrow> trace_state \<Rightarrow> error + trace_state flow" where
  "scanner1_trace_body e depth st =
     (case scanner1_get_address_details e (current_addr st) of
        Inl err \<Rightarrow> Inl err
      | Inr None \<Rightarrow> Inr (Break st)
      | Inr (Some d) \<Rightarrow>
          (case scanner1_age e depth (creation_time d) (now st) of
             Inl err \<Rightarrow> Inl err
           | Inr (age_days0, hours, now') \<Rightarrow>
               (case scanner1_true_age e (current_addr st) age_days0 (tx_count d) now' of
                  Inl err \<Rightarrow> Inl err
                | Inr (ad, is_verified_old_wallet) \<Rightarrow>
                    (case scanner1_dispersion e depth is_verified_old_wallet (current_addr st) of
                       Inl err \<Rightarrow> Inl err
                     | Inr is_dist \<Rightarrow>
                         let age_risk = scanner1_age_risk depth ad is_verified_old_wallet;
                             penalty = (if is_dist then 30 else 0);
                             layer_info =
                               \<lparr>layer = depth, address = current_addr st, age_days = ad,
                                age_hours = Some hours, is_cex = False,
                                is_verified_old = Some is_verified_old_wallet,
                                is_distributor = Some is_dist, entity_name = None,
                                risk_contribution = age_risk + penalty,
                                funded_by_entity = None\<rparr>;
                             new_total = trace_risk_score st + age_risk + penalty
                         in
                         if truthy (funder_entity d) then
                           Inr (Break (st\<lparr>
                             chain_info := chain_info st
                               @ [layer_info\<lparr>funded_by_entity := funder_entity d\<rparr>,
                                  scanner1_cex_layer depth d],
                             trace_risk_score := new_total - 40 - 20,
                             trace_stop_reason :=
                               ''Funded by Known Entity: '' @ format_opt (funder_entity d),
                             now := now'\<rparr>))
                         else if \<not> truthy (funder d) then
                           Inr (Break (st\<lparr>
                             chain_info := chain_info st @ [layer_info],
                             trace_risk_score := new_total,
                             trace_stop_reason := ''No upstream funder found'',
                             now := now'\<rparr>))
                         else
                           Inr (Continue (st\<lparr>
                             chain_info := chain_info st @ [layer_info],
                             trace_risk_score := new_total,
                             current_addr := funder d,
                             now := now'\<rparr>))))))"

text \<open>The \<^verbatim>\<open>for depth in range(max_depth + 1)\<close> loop, over the depths still to visit.\<close>

fun scanner1_trace_loop :: "env \<Rightarrow> nat list \<Rightarrow> trace_state \<Rightarrow> error + trace_state" where
  "scanner1_trace_loop e [] st = Inr st"
| "scanner1_trace_loop e (depth # rest) st =
     (case scanner1_trace_body e depth st of
        Inl err \<Rightarrow> Inl err
      | Inr (Break st') \<Rightarrow> Inr st'
      | Inr (Continue st') \<Rightarrow> scanner1_trace_loop e rest st')"

definition scanner1_trace_funding_source ::
  "env \<Rightarrow> string option \<Rightarrow> nat \<Rightarrow> error + trace_result" where
  "scanner1_trace_funding_source e start_address max_depth =
     (case scanner1_trace_loop e [0 ..< max_depth + 1]
             \<lparr>chain_info = [], current_addr = start_address, trace_risk_score = 0,
              trace_stop_reason = ''Max depth reached'', now = None\<rparr> of
        Inl err \<Rightarrow> Inl err
      | Inr st \<Rightarrow> Inr (result_of st))"

subsection \<open>\<^verbatim>\<open>Scanner.py\<close>\<close>

text \<open>Age from the creation time; \<^verbatim>\<open>datetime.now()\<close> is naive, as the creation time is.\<close>

definition Scanner_age :: "env \<Rightarrow> nat \<Rightarrow> datetime option \<Rightarrow> error + int" where
  "Scanner_age e depth ct =
     (case ct of
        None \<Rightarrow> Inr (- 1)
      | Some c \<Rightarrow>
          (case dt_sub \<lparr>wall = clock e depth, utcoffset = None\<rparr> c of
             Inl err \<Rightarrow> Inl err
           | Inr delta \<Rightarrow> Inr (days delta)))"

definition Scanner_age_risk :: "nat \<Rightarrow> int \<Rightarrow> int" where
  "Scanner_age_risk depth ad =
     (if ad \<noteq> - 1 then
        if depth = 0 then
          (if ad < 30 then 30 else if ad < 90 then 20 else if ad < 180 then 10 else 0)
        else
          (if ad < 90 then 20 else if ad < 180 then 10 else 0)
      else 0)"

text \<open>The known-entity check of one iteration (skipped for the deployer).\<close>

definition Scanner_known_entity ::
  "env \<Rightarrow> nat \<Rightarrow> string option \<Rightarrow> error + bool \<times> string option" where
  "Scanner_known_entity e depth addr =
     (if depth > 0 then check_is_known_entity e addr else Inr (False, None))"

definition Scanner_dispersion :: "env \<Rightarrow> nat \<Rightarrow> string option \<Rightarrow> error + bool" where
  "Scanner_dispersion e depth addr =
     (if depth > 0 then analyze_dispersion_pattern e addr else Inr False)"

definition Scanner_trace_body :: "env \<Rightarrow> nat \<Rightarrow> trace_state \<Rightarrow> error + trace_state flow" where
  "Scanner_trace_body e depth st =
     (case Scanner_get_address_details e (current_addr st) of
        Inl err \<Rightarrow> Inl err
      | Inr None \<Rightarrow> Inr (Break st)
      | Inr (Some d) \<Rightarrow>
          (case Scanner_age e depth (creation_time d) of
             Inl err \<Rightarrow> Inl err
           | Inr ad \<Rightarrow>
               let layer_info =
                     \<lparr>layer = depth, address = current_addr st, age_days = ad,
                      age_hours = None, is_cex = False, is_verified_old = None,
                      is_distributor = Some False, entity_name = None,
                      risk_contribution = 0, funded_by_entity = None\<rparr>
               in
               (case Scanner_known_entity e depth (current_addr st) of
                  Inl err \<Rightarrow> Inl err
                | Inr (is_known, known_name) \<Rightarrow>
                    if is_known then
                      Inr (Break (st\<lparr>
                        chain_info := chain_info st
                          @ [layer_info\<lparr>is_cex := True, entity_name := known_name,
                               risk_contribution := - 10\<rparr>],
                        trace_risk_score := trace_risk_score st - 10,
                        trace_stop_reason :=
                          ''Found Trusted Entity: '' @ format_opt known_name\<rparr>))
                    else
                      (case Scanner_dispersion e depth (current_addr st) of
                         Inl err \<Rightarrow> Inl err
                       | Inr is_dist \<Rightarrow>
                           let age_risk = Scanner_age_risk depth ad;
                               penalty = (if is_dist then 50 else 0);
                               layer_info' =
                                 layer_info\<lparr>is_distributor := Some is_dist,
                                   risk_contribution := age_risk + penalty\<rparr>;
                               new_total = trace_risk_score st + age_risk + penalty
                           in
                           if \<not> truthy (funder d) then
                             Inr (Break (st\<lparr>
                               chain_info := chain_info st @ [layer_info'],
                               trace_risk_score := new_total,
                               trace_stop_reason := ''No upstream funder found''\<rparr>))
                           else
                             Inr (Continue (st\<lparr>
                               chain_info := chain_info st @ [layer_info'],
                               trace_risk_score := new_total,
                               current_addr := funder d\<rparr>))))))"

fun Scanner_trace_loop :: "env \<Rightarrow> nat list \<Rightarrow> trace_state \<Rightarrow> error + trace_state" where
  "Scanner_trace_loop e [] st = Inr st"
| "Scanner_trace_loop e (depth # rest) st =
     (case Scanner_trace_body e depth st of
        Inl err \<Rightarrow> Inl err
      | Inr (Break st') \<Rightarrow> Inr st'
      | Inr (Continue st') \<Rightarrow> Scanner_trace_loop e rest st')"

definition Scanner_trace_funding_source ::
  "env \<Rightarrow> string option \<Rightarrow> nat \<Rightarrow> error + trace_result" where
  "Scanner_trace_funding_source e start_address max_depth =
     (case Scanner_trace_loop e [0 ..< max_depth + 1]
             \<lparr>chain_info = [], current_addr = start_address, trace_risk_score = 20,
              trace_stop_reason = ''Max depth reached'', now = None\<rparr> of
        Inl err \<Rightarrow> Inl err
      | Inr st \<Rightarrow> Inr (result_of st))"

section \<open>Token assessment\<close>

text \<open>
  What \<^verbatim>\<open>assess_token_risk\<close> returns: the verdict of the database for a known token, an
  error object, or the report of a deep scan.  Of the report, the score, the label and
  the trace are embedded; its \<^verbatim>\<open>flags\<close> and \<^verbatim>\<open>trace_log\<close> are texts rendered from the chain
  of the trace, and no score is computed from them.
\<close>

record report =
  deployer :: "string option"
  final_score :: int
  risk_label :: string
  funding_analysis :: trace_result

datatype assessment =
    Existing string db_status
  | ErrorObject string string
  | Report string report

text \<open>\<^verbatim>\<open>final_score = 0; final_score += score; final_score = max(0, min(100, final_score))\<close>.\<close>

definition aggregate :: "int \<Rightarrow> int" where
  "aggregate trace_total = max 0 (min 100 (0 + trace_total))"

definition scanner1_label :: "int \<Rightarrow> string" where
  "scanner1_label fs = (if fs \<ge> 70 then ''HIGH'' else if fs \<ge> 40 then ''MEDIUM'' else ''LOW'')"

definition Scanner_label :: "int \<Rightarrow> string" where
  "Scanner_label fs = (if fs \<ge> 70 then ''HIGH'' else if fs \<ge> 30 then ''MEDIUM'' else ''LOW'')"

text \<open>The deployer: the source of the first transfer of the token, else its
  destination.\<close>

definition deployer_of :: "transfer \<Rightarrow> string option" where
  "deployer_of first_tx =
     (let from_addr = get_or_empty (fromAddress first_tx);
          to_addr = get_or_empty (toAddress first_tx)
      in if truthy from_addr then from_addr else to_addr)"

text \<open>
  \<^verbatim>\<open>assess_token_risk\<close>, over the three methods and the label thresholds in which the
  modules differ.
\<close>

definition assess_token_risk_with ::
  "(env \<Rightarrow> string \<Rightarrow> error + db_status option) \<Rightarrow>
   (env \<Rightarrow> string option \<Rightarrow> nat \<Rightarrow> error + trace_result) \<Rightarrow>
   (int \<Rightarrow> string) \<Rightarrow> env \<Rightarrow> string \<Rightarrow> error + assessment" where
  "assess_token_risk_with check_db trace label_of e token_address =
     (case check_db e token_address of
        Inl err \<Rightarrow> Inl err
      | Inr (Some db) \<Rightarrow> Inr (Existing token_address db)
      | Inr None \<Rightarrow>
          let tx_list = normalize_transfers_list (transfers e (QBase token_address)) in
          if tx_list = [] then Inr (ErrorObject token_address ''No token history found'')
          else
            let valid_txs = valid_txs_of tx_list in
            if valid_txs = [] then
              Inr (ErrorObject token_address ''No valid timestamp data'')
            else
              (case sorted_first timestamp_key valid_txs of
                 None \<Rightarrow> Inl IndexError
               | Some first_tx \<Rightarrow>
                   let dep = deployer_of first_tx in
                   (case trace e dep 3 of
                      Inl err \<Rightarrow> Inl err
                    | Inr fa \<Rightarrow>
                        let fs = aggregate (score fa) in
                        Inr (Report token_address
                          \<lparr>deployer = dep, final_score = fs, risk_label = label_of fs,
                           funding_analysis = fa\<rparr>))))"

definition scanner1_assess_token_risk :: "env \<Rightarrow> string \<Rightarrow> error + assessment" where
  "scanner1_assess_token_risk =
     assess_token_risk_with scanner1_check_database_status scanner1_trace_funding_source
       scanner1_label"

definition Scanner_assess_token_risk :: "env \<Rightarrow> string \<Rightarrow> error + assessment" where
  "Scanner_assess_token_risk =
     assess_token_risk_with Scanner_check_database_status Scanner_trace_funding_source
       Scanner_label"

section \<open>Auxiliary notions and example environments\<close>

text \<open>The environment \<open>e\<close> with the answers to the outgoing-transfer requests (the
  only requests of the dispersion detector) replaced by \<open>f\<close>.\<close>

definition with_outgoing :: "env \<Rightarrow> (string \<Rightarrow> transfers_json option) \<Rightarrow> env" where
  "with_outgoing e f =
     e\<lparr>transfers := (\<lambda>q. case q of QFrom a \<Rightarrow> f a | _ \<Rightarrow> transfers e q)\<rparr>"

text \<open>
  What the provider's data say about the age of a wallet: the earliest timestamp among
  the fetched transfers that have one, and the earliest time among the records of
  the history, a record without a time counting as \<^verbatim>\<open>'9999-12-31'\<close>.
\<close>

definition first_seen :: "transfer list \<Rightarrow> string" where
  "first_seen tx_list = Min (set (map timestamp_key (valid_txs_of tx_list)))"

definition earliest_time :: "hist_record list \<Rightarrow> string" where
  "earliest_time history_list =
     Min (set (map (\<lambda>x. case time x of Present s \<Rightarrow> s | _ \<Rightarrow> ''9999-12-31'')
                 history_list))"

text \<open>
  The examples share a parser that knows four instants and a clock that reads
  2024-10-04 12:00 UTC (in microseconds since the epoch) in every iteration.
\<close>

definition iso_table :: "string \<Rightarrow> datetime option" where
  "iso_table s =
     (if s = ''2024-10-04T00:00:00+00:00'' then Some \<lparr>wall = 1728000000000000, utcoffset = Some 0\<rparr>
      else if s = ''2024-09-24T00:00:00+00:00'' then Some \<lparr>wall = 1727136000000000, utcoffset = Some 0\<rparr>
      else if s = ''2024-03-18T00:00:00+00:00'' then Some \<lparr>wall = 1710720000000000, utcoffset = Some 0\<rparr>
      else if s = ''2023-08-31T00:00:00+00:00'' then Some \<lparr>wall = 1693440000000000, utcoffset = Some 0\<rparr>
      else None)"

definition example_env ::
  "(string \<Rightarrow> intel option) \<Rightarrow> (query \<Rightarrow> transfers_json option) \<Rightarrow>
   (string \<Rightarrow> history_json option) \<Rightarrow> env" where
  "example_env i t h =
     \<lparr>intelligence = i, transfers = t, history = h, fromisoformat = iso_table,
      clock = (\<lambda>_. 1728043200000000)\<rparr>"

definition transfer_at :: "string \<Rightarrow> string \<Rightarrow> string \<Rightarrow> string option jfield \<Rightarrow> transfer" where
  "transfer_at ts src dst ent =
     \<lparr>blockTimestamp = Some ts, fromAddress = Present (Some src),
      toAddress = Present (Some dst), fromAddressEntity = ent, fromAddressLabel = Absent\<rparr>"

text \<open>Every request fails.\<close>

definition silent :: env where
  "silent = example_env (\<lambda>_. None) (\<lambda>_. None) (\<lambda>_. None)"

text \<open>The only transfer record of token \<open>T\<close> has no timestamp.\<close>

definition untimed :: env where
  "untimed =
     example_env (\<lambda>_. None)
       (\<lambda>q. if q = QBase ''T''
            then Some (JDict (Some [(transfer_at [] ''D'' ''P'' Absent)\<lparr>blockTimestamp := None\<rparr>]))
            else None)
       (\<lambda>_. None)"

text \<open>Token \<open>T\<close> was first moved by \<open>D\<close>; nothing is known about \<open>D\<close>.\<close>

definition unresolved_deployer :: env where
  "unresolved_deployer =
     example_env (\<lambda>_. None)
       (\<lambda>q. if q = QBase ''T''
            then Some (JList [transfer_at ''2024-10-04T00:00:00Z'' ''D'' ''P'' Absent])
            else None)
       (\<lambda>_. None)"

text \<open>Token \<open>T\<close> was first moved by \<open>D\<close>, a wallet 400 days old whose first incoming
  transfer came from \<open>B\<close>, an address of the entity Binance.\<close>

definition entity_funded :: env where
  "entity_funded =
     example_env (\<lambda>_. None)
       (\<lambda>q. if q = QBase ''T''
            then Some (JList [transfer_at ''2024-10-04T00:00:00Z'' ''D'' ''P'' Absent])
            else if q = QTo ''D''
            then Some (JList [transfer_at ''2023-08-31T00:00:00Z'' ''B'' ''D''
                                (Present (Some ''Binance''))])
            else None)
       (\<lambda>_. None)"

text \<open>A chain of wallets, each ten days old and funded by the next:
  \<open>D\<close>, \<open>F1\<close>, \<open>F2\<close>, \<open>F3\<close>, \<open>F4\<close>.\<close>

definition four_hops :: env where
  "four_hops =
     example_env (\<lambda>_. None)
       (\<lambda>q. if q = QBase ''T''
            then Some (JList [transfer_at ''2024-10-04T00:00:00Z'' ''D'' ''P'' Absent])
            else if q = QTo ''D''
            then Some (JList [transfer_at ''2024-09-24T00:00:00Z'' ''F1'' ''D'' Absent])
            else if q = QTo ''F1''
            then Some (JList [transfer_at ''2024-09-24T00:00:00Z'' ''F2'' ''F1'' Absent])
            else if q = QTo ''F2''
            then Some (JList [transfer_at ''2024-09-24T00:00:00Z'' ''F3'' ''F2'' Absent])
            else if q = QTo ''F3''
            then Some (JList [transfer_at ''2024-09-24T00:00:00Z'' ''F4'' ''F3'' Absent])
            else None)
       (\<lambda>_. None)"

text \<open>Twenty-five outgoing transfers to twenty-one distinct addresses, twenty-five to
  ten, and fifteen to fifteen.\<close>

definition letters :: "string list" where
  "letters = map (\<lambda>c. [c]) ''abcdefghijklmnopqrstuvwxyz''"

definition txs_25_21 :: "transfer list" where
  "txs_25_21 =
     map (\<lambda>a. transfer_at ''2024-10-04T00:00:00Z'' ''H'' a Absent)
       (take 21 letters @ take 4 letters)"

definition txs_25_10 :: "transfer list" where
  "txs_25_10 =
     map (\<lambda>a. transfer_at ''2024-10-04T00:00:00Z'' ''H'' a Absent)
       (take 10 letters @ take 10 letters @ take 5 letters)"

definition txs_15_15 :: "transfer list" where
  "txs_15_15 =
     map (\<lambda>a. transfer_at ''2024-10-04T00:00:00Z'' ''H'' a Absent) (take 15 letters)"


definition outgoing :: "transfer list \<Rightarrow> env" where
  "outgoing txs =
     example_env (\<lambda>_. None) (\<lambda>q. if q = QFrom ''H'' then Some (JList txs) else None)
       (\<lambda>_. None)"

text \<open>
  \<open>D\<close>, 400 days old, was funded by the busy wallet \<open>H\<close>.  The capped lookup for \<open>H\<close>
  returns 100 transfers, the earliest of today; its history starts 200 days ago; its
  outgoing transfers are the twenty-five to twenty-one addresses above.
\<close>

definition hot_wallet :: env where
  "hot_wallet =
     example_env (\<lambda>_. None)
       (\<lambda>q. if q = QTo ''D''
            then Some (JList [transfer_at ''2023-08-31T00:00:00Z'' ''H'' ''D'' Absent])
            else if q = QTo ''H''
            then Some (JList (replicate 100
                   (transfer_at ''2024-10-04T00:00:00Z'' ''X'' ''H'' Absent)))
            else if q = QFrom ''H'' then Some (JList txs_25_21)
            else None)
       (\<lambda>a. if a = ''H''
            then Some (HDict (Some [\<lparr>time = Present ''2024-03-18T00:00:00Z''\<rparr>]))
            else None)"

text \<open>
  The capped lookup for the busy wallet \<open>H\<close> returns 100 transfers, not in order: one of
  06:00 today, then ninety-nine of 00:00 today.  Its history has three records, the
  latest first and one without a time; it starts 200 days ago.
\<close>

definition long_history :: env where
  "long_history =
     example_env (\<lambda>_. None)
       (\<lambda>q. if q = QTo ''H''
            then Some (JList (transfer_at ''2024-10-04T06:00:00Z'' ''Y'' ''H'' Absent
                   # replicate 99 (transfer_at ''2024-10-04T00:00:00Z'' ''X'' ''H'' Absent)))
            else None)
       (\<lambda>a. if a = ''H''
            then Some (HDict (Some [\<lparr>time = Present ''2024-09-24T00:00:00Z''\<rparr>,
                                    \<lparr>time = Absent\<rparr>,
                                    \<lparr>time = Present ''2024-03-18T00:00:00Z''\<rparr>]))
            else None)"

text \<open>The intelligence database knows the token \<open>T\<close> as \<open>i\<close>.\<close>

definition known_token :: "intel \<Rightarrow> env" where
  "known_token i =
     example_env (\<lambda>a. if a = ''T'' then Some i else None) (\<lambda>_. None) (\<lambda>_. None)"

section \<open>Dispersion detector\<close>

lemma unique_receivers_iff:
  "a \<in> unique_receivers txs \<longleftrightarrow>
     a \<noteq> [] \<and> (\<exists>tx \<in> set txs. toAddress tx = Present (Some a))"
  by (induction txs) (auto simp: unique_receivers_def split: jfield.splits option.splits if_splits)



text \<open>On a \<^verbatim>\<open>null\<close> destination object among twenty or more transfers the detector
  raises instead.\<close>

lemma analyze_dispersion_pattern_null:
  assumes "a \<noteq> []"
    and "tx_list = normalize_transfers_list (transfers e (QFrom a))"
    and "20 \<le> length tx_list" and "tx \<in> set tx_list" and "toAddress tx = Null"
  shows "analyze_dispersion_pattern e (Some a) = Inl AttributeError"
proof -
  have "add_receivers txs acc = Inl AttributeError"
    if "tx \<in> set txs" for txs acc
    using that assms(5)
    by (induction txs arbitrary: acc)
      (auto simp: get_default_empty_def split: jfield.splits option.splits sum.splits)
  from this [OF assms(4)] assms(1,2,3) show ?thesis
    by (auto simp: analyze_dispersion_pattern_def Let_def)
qed




text \<open>Without an address the detector returns false and fetches nothing.\<close>

lemma analyze_dispersion_pattern_no_address:
  "\<not> truthy addr \<Longrightarrow> analyze_dispersion_pattern e addr = Inr False"
  by (cases addr) (simp_all add: analyze_dispersion_pattern_def truthy_def)

text \<open>Twenty-five transfers to ten distinct addresses, and fifteen to fifteen: false.\<close>

lemma analyze_dispersion_pattern_examples:
  "card (unique_receivers txs_25_10) = 10"
  "analyze_dispersion_pattern (outgoing txs_25_10) (Some ''H'') = Inr False"
  "card (unique_receivers txs_15_15) = 15"
  "analyze_dispersion_pattern (outgoing txs_15_15) (Some ''H'') = Inr False"
  by code_simp+

section \<open>The loop body, case by case\<close>

lemma scanner1_dispersion_True:
  "scanner1_dispersion e depth v addr = Inr True \<Longrightarrow> 0 < depth \<and> \<not> v"
  by (auto simp: scanner1_dispersion_def split: if_splits)

lemma scanner1_true_age_verified:
  "scanner1_true_age e addr ad0 txc nv = Inr (ad, True) \<Longrightarrow> 180 < ad"
  by (auto simp: scanner1_true_age_def Let_def split: if_splits option.splits sum.splits)

lemma scanner1_trace_body_cases:
  assumes "scanner1_trace_body e depth st = Inr out"
  obtains (unresolved)
      "scanner1_get_address_details e (current_addr st) = Inr None" "out = Break st"
  | (hop) d h v dist ad0 hours st' where
      "scanner1_get_address_details e (current_addr st) = Inr (Some d)"
      "scanner1_age e depth (creation_time d) (now st) = Inr (ad0, hours, now st')"
      "age_hours h = Some hours"
      "scanner1_true_age e (current_addr st) ad0 (tx_count d) (now st') = Inr (age_days h, v)"
      "scanner1_dispersion e depth v (current_addr st) = Inr dist"
      "layer h = depth" "address h = current_addr st" "\<not> is_cex h"
      "is_verified_old h = Some v" "is_distributor h = Some dist"
      "risk_contribution h = scanner1_age_risk depth (age_days h) v + (if dist then 30 else 0)"
      "truthy (funder_entity d) \<Longrightarrow> funded_by_entity h = funder_entity d"
      "chain_info st' =
         chain_info st @ (if truthy (funder_entity d) then [h, scanner1_cex_layer depth d] else [h])"
      "trace_risk_score st' =
         trace_risk_score st + risk_contribution h - (if truthy (funder_entity d) then 40 + 20 else 0)"
      "trace_stop_reason st' =
         (if truthy (funder_entity d)
          then ''Funded by Known Entity: '' @ format_opt (funder_entity d)
          else if \<not> truthy (funder d) then ''No upstream funder found''
          else trace_stop_reason st)"
      "current_addr st' =
         (if truthy (funder_entity d) \<or> \<not> truthy (funder d) then current_addr st else funder d)"
      "out = (if truthy (funder_entity d) \<or> \<not> truthy (funder d) then Break st' else Continue st')"
proof (cases "scanner1_get_address_details e (current_addr st)")
  case (Inl err)
  with assms show ?thesis by (simp add: scanner1_trace_body_def)
next
  case (Inr od)
  show ?thesis
  proof (cases od)
    case None
    with Inr assms show ?thesis by (simp add: scanner1_trace_body_def unresolved)
  next
    case (Some d)
    note det = Inr [unfolded Some]
    from assms det obtain ad0 hours now' where
      age: "scanner1_age e depth (creation_time d) (now st) = Inr (ad0, hours, now')"
      by (auto simp: scanner1_trace_body_def split: sum.splits)
    from assms det age obtain ad v where
      ta: "scanner1_true_age e (current_addr st) ad0 (tx_count d) now' = Inr (ad, v)"
      by (auto simp: scanner1_trace_body_def split: sum.splits)
    from assms det age ta obtain dist where
      di: "scanner1_dispersion e depth v (current_addr st) = Inr dist"
      by (auto simp: scanner1_trace_body_def split: sum.splits)
    define h0 where "h0 = \<lparr>layer = depth, address = current_addr st, age_days = ad,
        age_hours = Some hours, is_cex = False, is_verified_old = Some v,
        is_distributor = Some dist, entity_name = None,
        risk_contribution = scanner1_age_risk depth ad v + (if dist then 30 else 0),
        funded_by_entity = None\<rparr>"
    define h where
      "h = (if truthy (funder_entity d) then h0\<lparr>funded_by_entity := funder_entity d\<rparr> else h0)"
    have out: "out =
       (if truthy (funder_entity d) then
          Break (st\<lparr>chain_info := chain_info st @ [h, scanner1_cex_layer depth d],
            trace_risk_score := trace_risk_score st + risk_contribution h - 40 - 20,
            trace_stop_reason := ''Funded by Known Entity: '' @ format_opt (funder_entity d),
            now := now'\<rparr>)
        else if \<not> truthy (funder d) then
          Break (st\<lparr>chain_info := chain_info st @ [h],
            trace_risk_score := trace_risk_score st + risk_contribution h,
            trace_stop_reason := ''No upstream funder found'', now := now'\<rparr>)
        else
          Continue (st\<lparr>chain_info := chain_info st @ [h],
            trace_risk_score := trace_risk_score st + risk_contribution h,
            current_addr := funder d, now := now'\<rparr>))"
      using assms det age ta di
      by (auto simp: scanner1_trace_body_def Let_def h_def h0_def split: if_splits)
    have now': "now (state_of out) = now'"
      by (simp add: out state_of_def)
    have hh: "age_hours h = Some hours" "age_days h = ad"
      by (simp_all add: h_def h0_def)
    show ?thesis
    proof (rule hop [of d ad0 hours "state_of out" h v dist])
      show "scanner1_get_address_details e (current_addr st) = Inr (Some d)" by (rule det)
      show "scanner1_age e depth (creation_time d) (now st)
          = Inr (ad0, hours, now (state_of out))"
        by (simp add: age now')
      show "scanner1_true_age e (current_addr st) ad0 (tx_count d) (now (state_of out))
          = Inr (age_days h, v)"
        by (simp add: ta now' hh)
      show "scanner1_dispersion e depth v (current_addr st) = Inr dist" by (rule di)
    qed (simp_all add: h_def h0_def out state_of_def)
  qed
qed

lemma Scanner_trace_body_cases:
  assumes "Scanner_trace_body e depth st = Inr out"
  obtains (unresolved)
      "Scanner_get_address_details e (current_addr st) = Inr None" "out = Break st"
  | (known) d h known_name st' where
      "Scanner_get_address_details e (current_addr st) = Inr (Some d)"
      "Scanner_known_entity e depth (current_addr st) = Inr (True, known_name)"
      "layer h = depth" "address h = current_addr st" "is_cex h"
      "is_verified_old h = None" "is_distributor h = Some False" "entity_name h = known_name"
      "risk_contribution h = - 10"
      "chain_info st' = chain_info st @ [h]"
      "trace_risk_score st' = trace_risk_score st - 10"
      "trace_stop_reason st' = ''Found Trusted Entity: '' @ format_opt known_name"
      "current_addr st' = current_addr st"
      "out = Break st'"
  | (hop) d h dist known_name st' where
      "Scanner_get_address_details e (current_addr st) = Inr (Some d)"
      "Scanner_known_entity e depth (current_addr st) = Inr (False, known_name)"
      "Scanner_age e depth (creation_time d) = Inr (age_days h)"
      "Scanner_dispersion e depth (current_addr st) = Inr dist"
      "layer h = depth" "address h = current_addr st" "\<not> is_cex h"
      "is_verified_old h = None" "is_distributor h = Some dist"
      "risk_contribution h = Scanner_age_risk depth (age_days h) + (if dist then 50 else 0)"
      "chain_info st' = chain_info st @ [h]"
      "trace_risk_score st' = trace_risk_score st + risk_contribution h"
      "trace_stop_reason st' =
         (if \<not> truthy (funder d) then ''No upstream funder found'' else trace_stop_reason st)"
      "current_addr st' = (if \<not> truthy (funder d) then current_addr st else funder d)"
      "out = (if \<not> truthy (funder d) then Break st' else Continue st')"
proof (cases "Scanner_get_address_details e (current_addr st)")
  case (Inl err)
  with assms show ?thesis by (simp add: Scanner_trace_body_def)
next
  case (Inr od)
  show ?thesis
  proof (cases od)
    case None
    with Inr assms show ?thesis by (simp add: Scanner_trace_body_def unresolved)
  next
    case (Some d)
    note det = Inr [unfolded Some]
    from assms det obtain ad where
      age: "Scanner_age e depth (creation_time d) = Inr ad"
      by (auto simp: Scanner_trace_body_def split: sum.splits)
    from assms det age obtain is_known known_name where
      kn: "Scanner_known_entity e depth (current_addr st) = Inr (is_known, known_name)"
      by (auto simp: Scanner_trace_body_def Let_def split: sum.splits)
    define h0 where "h0 = \<lparr>layer = depth, address = current_addr st, age_days = ad,
        age_hours = None, is_cex = False, is_verified_old = None,
        is_distributor = Some False, entity_name = None,
        risk_contribution = 0, funded_by_entity = None\<rparr>"
    show ?thesis
    proof (cases is_known)
      case True
      have out: "out = Break (st\<lparr>chain_info := chain_info st
            @ [h0\<lparr>is_cex := True, entity_name := known_name, risk_contribution := - 10\<rparr>],
          trace_risk_score := trace_risk_score st - 10,
          trace_stop_reason := ''Found Trusted Entity: '' @ format_opt known_name\<rparr>)"
        using assms det age kn True
        by (auto simp: Scanner_trace_body_def Let_def h0_def)
      show ?thesis
      proof (rule known [of d known_name
            "h0\<lparr>is_cex := True, entity_name := known_name, risk_contribution := - 10\<rparr>"
            "state_of out"])
        show "Scanner_get_address_details e (current_addr st) = Inr (Some d)" by (rule det)
        show "Scanner_known_entity e depth (current_addr st) = Inr (True, known_name)"
          using kn True by simp
      qed (simp_all add: h0_def out state_of_def)
    next
      case False
      from assms det age kn False obtain dist where
        di: "Scanner_dispersion e depth (current_addr st) = Inr dist"
        by (auto simp: Scanner_trace_body_def Let_def split: sum.splits)
      define h where "h = h0\<lparr>is_distributor := Some dist,
          risk_contribution := Scanner_age_risk depth ad + (if dist then 50 else 0)\<rparr>"
      have out: "out =
         (if \<not> truthy (funder d) then
            Break (st\<lparr>chain_info := chain_info st @ [h],
              trace_risk_score := trace_risk_score st + risk_contribution h,
              trace_stop_reason := ''No upstream funder found''\<rparr>)
          else
            Continue (st\<lparr>chain_info := chain_info st @ [h],
              trace_risk_score := trace_risk_score st + risk_contribution h,
              current_addr := funder d\<rparr>))"
        using assms det age kn False di
        by (auto simp: Scanner_trace_body_def Let_def h_def h0_def split: if_splits)
      show ?thesis
      proof (rule hop [of d known_name h dist "state_of out"])
        show "Scanner_get_address_details e (current_addr st) = Inr (Some d)" by (rule det)
        show "Scanner_known_entity e depth (current_addr st) = Inr (False, known_name)"
          using kn False by simp
        show "Scanner_age e depth (creation_time d) = Inr (age_days h)"
          by (simp add: age h_def h0_def)
        show "Scanner_dispersion e depth (current_addr st) = Inr dist" by (rule di)
      qed (simp_all add: h_def h0_def out state_of_def)
    qed
  qed
qed

section \<open>The loops\<close>

lemma scanner1_trace_loop_invariant:
  assumes "scanner1_trace_loop e ds st = Inr st'" and "P st"
    and "\<And>depth s out. P s \<Longrightarrow> scanner1_trace_body e depth s = Inr out \<Longrightarrow> P (state_of out)"
  shows "P st'"
  using assms(1,2)
proof (induction ds arbitrary: st)
  case Nil
  then show ?case by simp
next
  case (Cons depth rest)
  show ?case
  proof (cases "scanner1_trace_body e depth st")
    case (Inl err)
    with Cons.prems show ?thesis by simp
  next
    case (Inr out)
    from assms(3) [OF Cons.prems(2) Inr] have P: "P (state_of out)" .
    show ?thesis
    proof (cases out)
      case (Break s)
      with Inr Cons.prems P show ?thesis by (simp add: state_of_def)
    next
      case (Continue s)
      with Inr Cons.prems P show ?thesis
        by (auto simp: state_of_def intro: Cons.IH)
    qed
  qed
qed

lemma Scanner_trace_loop_invariant:
  assumes "Scanner_trace_loop e ds st = Inr st'" and "P st"
    and "\<And>depth s out. P s \<Longrightarrow> Scanner_trace_body e depth s = Inr out \<Longrightarrow> P (state_of out)"
  shows "P st'"
  using assms(1,2)
proof (induction ds arbitrary: st)
  case Nil
  then show ?case by simp
next
  case (Cons depth rest)
  show ?case
  proof (cases "Scanner_trace_body e depth st")
    case (Inl err)
    with Cons.prems show ?thesis by simp
  next
    case (Inr out)
    from assms(3) [OF Cons.prems(2) Inr] have P: "P (state_of out)" .
    show ?thesis
    proof (cases out)
      case (Break s)
      with Inr Cons.prems P show ?thesis by (simp add: state_of_def)
    next
      case (Continue s)
      with Inr Cons.prems P show ?thesis
        by (auto simp: state_of_def intro: Cons.IH)
    qed
  qed
qed

lemma scanner1_trace_body_layers:
  assumes "scanner1_trace_body e depth st = Inr out"
    and "map layer (chain_info st) = [0 ..< depth]"
  shows "(out = Continue (state_of out) \<and> map layer (chain_info (state_of out)) = [0 ..< depth + 1])
       \<or> (out = Break (state_of out) \<and>
           (\<exists>k \<le> 2. map layer (chain_info (state_of out)) = [0 ..< depth + k]))"
  using assms(1)
proof (cases rule: scanner1_trace_body_cases)
  case unresolved
  with assms(2) show ?thesis
    by (auto simp: state_of_def intro: exI [of _ 0])
next
  case (hop d h v dist ad0 hours st')
  show ?thesis
  proof (cases "truthy (funder_entity d)")
    case True
    with hop assms(2) have "out = Break st'"
      "map layer (chain_info st') = [0 ..< depth + 2]"
      by (simp_all add: scanner1_cex_layer_def)
    then show ?thesis by (auto simp: state_of_def)
  next
    case False
    with hop assms(2) have "map layer (chain_info st') = [0 ..< depth + 1]"
      "out = Break st' \<or> out = Continue st'"
      by simp_all
    then show ?thesis by (auto simp: state_of_def intro: exI [of _ 1])
  qed
qed

lemma Scanner_trace_body_layers:
  assumes "Scanner_trace_body e depth st = Inr out"
    and "map layer (chain_info st) = [0 ..< depth]"
  shows "(out = Continue (state_of out) \<and> map layer (chain_info (state_of out)) = [0 ..< depth + 1])
       \<or> (out = Break (state_of out) \<and>
           (\<exists>k \<le> 1. map layer (chain_info (state_of out)) = [0 ..< depth + k]))"
  using assms(1)
proof (cases rule: Scanner_trace_body_cases)
  case unresolved
  with assms(2) show ?thesis
    by (auto simp: state_of_def intro: exI [of _ 0])
next
  case (known d h known_name st')
  with assms(2) have "out = Break st'" "map layer (chain_info st') = [0 ..< depth + 1]"
    by simp_all
  then show ?thesis by (auto simp: state_of_def intro: exI [of _ 1])
next
  case (hop d h dist known_name st')
  with assms(2) have "map layer (chain_info st') = [0 ..< depth + 1]"
    "out = Break st' \<or> out = Continue st'"
    by simp_all
  then show ?thesis by (auto simp: state_of_def intro: exI [of _ 1])
qed

lemma scanner1_trace_loop_layers:
  assumes "scanner1_trace_loop e [d ..< n] st = Inr st'"
    and "map layer (chain_info st) = [0 ..< d]" and "d \<le> n"
  shows "map layer (chain_info st') = [0 ..< length (chain_info st')]
       \<and> length (chain_info st') \<le> n + 1"
  using assms
proof (induction "n - d" arbitrary: d st)
  case 0
  then have "d = n" by simp
  with "0.prems" have "st' = st" by simp
  with "0.prems" \<open>d = n\<close> show ?case
    by (metis diff_zero le_add1 length_map length_upt)
next
  case (Suc m)
  then have lt: "d < n" by simp
  then have ds: "[d ..< n] = d # [Suc d ..< n]" by (simp add: upt_conv_Cons)
  show ?case
  proof (cases "scanner1_trace_body e d st")
    case (Inl err)
    with Suc.prems ds show ?thesis by simp
  next
    case (Inr out)
    from scanner1_trace_body_layers [OF Inr Suc.prems(2)]
    show ?thesis
    proof (elim disjE conjE exE)
      assume c: "out = Continue (state_of out)"
        and l: "map layer (chain_info (state_of out)) = [0 ..< d + 1]"
      from c Inr Suc.prems(1) ds
      have "scanner1_trace_loop e [Suc d ..< n] (state_of out) = Inr st'"
        by (metis flow.simps(6) scanner1_trace_loop.simps(2) sum.simps(6))
      moreover from Suc.hyps(2) have "m = n - Suc d" by simp
      ultimately show ?thesis
        using Suc.hyps(1) [of "Suc d" "state_of out"] l lt by simp
    next
      fix k :: nat
      assume b: "out = Break (state_of out)" and k: "k \<le> 2"
        and l: "map layer (chain_info (state_of out)) = [0 ..< d + k]"
      from b Inr Suc.prems(1) ds have "st' = state_of out"
        by (metis flow.simps(5) scanner1_trace_loop.simps(2) sum.simps(6) sum.inject(2))
      moreover from l have "length (chain_info (state_of out)) = d + k"
        by (metis diff_zero length_map length_upt)
      ultimately show ?thesis using l k lt by simp
    qed
  qed
qed

lemma Scanner_trace_loop_layers:
  assumes "Scanner_trace_loop e [d ..< n] st = Inr st'"
    and "map layer (chain_info st) = [0 ..< d]" and "d \<le> n"
  shows "map layer (chain_info st') = [0 ..< length (chain_info st')]
       \<and> length (chain_info st') \<le> n"
  using assms
proof (induction "n - d" arbitrary: d st)
  case 0
  then have "d = n" by simp
  with "0.prems" have "st' = st" by simp
  with "0.prems" \<open>d = n\<close> show ?case
    by (metis diff_zero length_map length_upt order_refl)
next
  case (Suc m)
  then have lt: "d < n" by simp
  then have ds: "[d ..< n] = d # [Suc d ..< n]" by (simp add: upt_conv_Cons)
  show ?case
  proof (cases "Scanner_trace_body e d st")
    case (Inl err)
    with Suc.prems ds show ?thesis by simp
  next
    case (Inr out)
    from Scanner_trace_body_layers [OF Inr Suc.prems(2)]
    show ?thesis
    proof (elim disjE conjE exE)
      assume c: "out = Continue (state_of out)"
        and l: "map layer (chain_info (state_of out)) = [0 ..< d + 1]"
      from c Inr Suc.prems(1) ds
      have "Scanner_trace_loop e [Suc d ..< n] (state_of out) = Inr st'"
        by (metis flow.simps(6) Scanner_trace_loop.simps(2) sum.simps(6))
      moreover from Suc.hyps(2) have "m = n - Suc d" by simp
      ultimately show ?thesis
        using Suc.hyps(1) [of "Suc d" "state_of out"] l lt by simp
    next
      fix k :: nat
      assume b: "out = Break (state_of out)" and k: "k \<le> 1"
        and l: "map layer (chain_info (state_of out)) = [0 ..< d + k]"
      from b Inr Suc.prems(1) ds have "st' = state_of out"
        by (metis flow.simps(5) Scanner_trace_loop.simps(2) sum.simps(6) sum.inject(2))
      moreover from l have "length (chain_info (state_of out)) = d + k"
        by (metis diff_zero length_map length_upt)
      ultimately show ?thesis using l k lt by simp
    qed
  qed
qed

lemma scanner1_trace_funding_source_Inr:
  "scanner1_trace_funding_source e start max_depth = Inr r \<Longrightarrow>
   \<exists>st'. scanner1_trace_loop e [0 ..< max_depth + 1]
       \<lparr>chain_info = [], current_addr = start, trace_risk_score = 0,
        trace_stop_reason = ''Max depth reached'', now = None\<rparr> = Inr st'
     \<and> r = result_of st'"
  by (auto simp: scanner1_trace_funding_source_def split: sum.splits)

lemma Scanner_trace_funding_source_Inr:
  "Scanner_trace_funding_source e start max_depth = Inr r \<Longrightarrow>
   \<exists>st'. Scanner_trace_loop e [0 ..< max_depth + 1]
       \<lparr>chain_info = [], current_addr = start, trace_risk_score = 20,
        trace_stop_reason = ''Max depth reached'', now = None\<rparr> = Inr st'
     \<and> r = result_of st'"
  by (auto simp: Scanner_trace_funding_source_def split: sum.splits)

text \<open>
  Claim C2.  In the trace returned by one call of \<^verbatim>\<open>trace_funding_source\<close>, of either
  module and for any \<^verbatim>\<open>max_depth\<close> (3 in the assessment), the layers of the hop records
  are 0, 1, 2, ... in order without a gap, the known-entity layer of \<^verbatim>\<open>scanner1.py\<close>
  included, and there are at most \<^verbatim>\<open>max_depth + 2\<close> hop records.
\<close>

theorem trace_funding_source_layers:
  "(scanner1_trace_funding_source e start max_depth = Inr r \<longrightarrow>
      map layer (chain r) = [0 ..< length (chain r)] \<and> length (chain r) \<le> max_depth + 2) \<and>
   (Scanner_trace_funding_source e start max_depth = Inr r' \<longrightarrow>
      map layer (chain r') = [0 ..< length (chain r')] \<and> length (chain r') \<le> max_depth + 2)"
proof (intro conjI impI)
  assume "scanner1_trace_funding_source e start max_depth = Inr r"
  then obtain st' where
    "scanner1_trace_loop e [0 ..< max_depth + 1]
       \<lparr>chain_info = [], current_addr = start, trace_risk_score = 0,
        trace_stop_reason = ''Max depth reached'', now = None\<rparr> = Inr st'"
    and r: "r = result_of st'"
    using scanner1_trace_funding_source_Inr by blast
  from scanner1_trace_loop_layers [OF this(1)]
  have "map layer (chain_info st') = [0 ..< length (chain_info st')]
      \<and> length (chain_info st') \<le> max_depth + 1 + 1"
    by simp
  with r show "map layer (chain r) = [0 ..< length (chain r)]"
    and "length (chain r) \<le> max_depth + 2"
    by (simp_all add: result_of_def)
next
  assume "Scanner_trace_funding_source e start max_depth = Inr r'"
  then obtain st' where
    "Scanner_trace_loop e [0 ..< max_depth + 1]
       \<lparr>chain_info = [], current_addr = start, trace_risk_score = 20,
        trace_stop_reason = ''Max depth reached'', now = None\<rparr> = Inr st'"
    and r: "r' = result_of st'"
    using Scanner_trace_funding_source_Inr by blast
  from Scanner_trace_loop_layers [OF this(1)]
  have "map layer (chain_info st') = [0 ..< length (chain_info st')]
      \<and> length (chain_info st') \<le> max_depth + 1"
    by simp
  with r show "map layer (chain r') = [0 ..< length (chain r')]"
    and "length (chain r') \<le> max_depth + 2"
    by (simp_all add: result_of_def)
qed

text \<open>The trace of the wallet funded by Binance has the layers 0 and 1 in
  \<^verbatim>\<open>scanner1.py\<close>; the trace of the chain of five wallets has the layers 0 to 3 in
  \<^verbatim>\<open>Scanner.py\<close>.\<close>

theorem trace_funding_source_layers_witness:
  "(\<exists>r. scanner1_trace_funding_source entity_funded (Some ''D'') 3 = Inr r
        \<and> map layer (chain r) = [0, 1]) \<and>
   (\<exists>r. Scanner_trace_funding_source four_hops (Some ''D'') 3 = Inr r
        \<and> map layer (chain r) = [0, 1, 2, 3])"
proof -
  have "case scanner1_trace_funding_source entity_funded (Some ''D'') 3 of
          Inr r \<Rightarrow> length (chain r) = 2 | Inl _ \<Rightarrow> False"
    by code_simp
  then obtain r where r: "scanner1_trace_funding_source entity_funded (Some ''D'') 3 = Inr r"
    "length (chain r) = 2"
    by (auto split: sum.splits)
  have "case Scanner_trace_funding_source four_hops (Some ''D'') 3 of
          Inr r \<Rightarrow> length (chain r) = 4 | Inl _ \<Rightarrow> False"
    by code_simp
  then obtain r' where r': "Scanner_trace_funding_source four_hops (Some ''D'') 3 = Inr r'"
    "length (chain r') = 4"
    by (auto split: sum.splits)
  from trace_funding_source_layers [of entity_funded "Some ''D''" 3 r]
    trace_funding_source_layers [of four_hops "Some ''D''" 3 _ r'] r r'
  have "map layer (chain r) = [0 ..< 2]" "map layer (chain r') = [0 ..< 4]"
    by simp_all
  then have "map layer (chain r) = [0, 1]" "map layer (chain r') = [0, 1, 2, 3]"
    by (simp_all add: upt_rec)
  with r(1) r'(1) show ?thesis by simp
qed

section \<open>Score accounting\<close>

lemma scanner1_trace_body_accounting:
  assumes "scanner1_trace_body e depth s = Inr out"
    and "trace_risk_score s =
       sum_list (map risk_contribution (chain_info s))
         - 40 * int (length (filter is_cex (chain_info s)))"
  shows "trace_risk_score (state_of out) =
       sum_list (map risk_contribution (chain_info (state_of out)))
         - 40 * int (length (filter is_cex (chain_info (state_of out))))"
  using assms(1)
proof (cases rule: scanner1_trace_body_cases)
  case unresolved
  with assms(2) show ?thesis by (simp add: state_of_def)
next
  case (hop d h v dist ad0 hours st')
  then have "state_of out = st'" by (simp add: state_of_def)
  with hop assms(2) show ?thesis by (simp add: scanner1_cex_layer_def)
qed

lemma Scanner_trace_body_accounting:
  assumes "Scanner_trace_body e depth s = Inr out"
    and "trace_risk_score s = 20 + sum_list (map risk_contribution (chain_info s))"
  shows "trace_risk_score (state_of out) =
       20 + sum_list (map risk_contribution (chain_info (state_of out)))"
  using assms(1)
proof (cases rule: Scanner_trace_body_cases)
  case unresolved
  with assms(2) show ?thesis by (simp add: state_of_def)
next
  case (known d h known_name st')
  then have "state_of out = st'" by (simp add: state_of_def)
  with known assms(2) show ?thesis by simp
next
  case (hop d h dist known_name st')
  then have "state_of out = st'" by (simp add: state_of_def)
  with hop assms(2) show ?thesis by simp
qed

lemma scanner1_score_accounting:
  assumes "scanner1_trace_funding_source e start max_depth = Inr r"
  shows "score r = sum_list (map risk_contribution (chain r))
           - 40 * int (length (filter is_cex (chain r)))"
proof -
  from assms obtain st' where
    loop: "scanner1_trace_loop e [0 ..< max_depth + 1]
       \<lparr>chain_info = [], current_addr = start, trace_risk_score = 0,
        trace_stop_reason = ''Max depth reached'', now = None\<rparr> = Inr st'"
    and r: "r = result_of st'"
    using scanner1_trace_funding_source_Inr by blast
  have "trace_risk_score st' =
       sum_list (map risk_contribution (chain_info st'))
         - 40 * int (length (filter is_cex (chain_info st')))"
    by (rule scanner1_trace_loop_invariant [OF loop]) (simp, rule scanner1_trace_body_accounting)
  with r show ?thesis by (simp add: result_of_def)
qed

lemma Scanner_score_accounting:
  assumes "Scanner_trace_funding_source e start max_depth = Inr r"
  shows "score r = 20 + sum_list (map risk_contribution (chain r))"
proof -
  from assms obtain st' where
    loop: "Scanner_trace_loop e [0 ..< max_depth + 1]
       \<lparr>chain_info = [], current_addr = start, trace_risk_score = 20,
        trace_stop_reason = ''Max depth reached'', now = None\<rparr> = Inr st'"
    and r: "r = result_of st'"
    using Scanner_trace_funding_source_Inr by blast
  have "trace_risk_score st' = 20 + sum_list (map risk_contribution (chain_info st'))"
    by (rule Scanner_trace_loop_invariant [OF loop]) (simp, rule Scanner_trace_body_accounting)
  with r show ?thesis by (simp add: result_of_def)
qed

section \<open>What a hop record says\<close>

text \<open>Every layer of a \<^verbatim>\<open>scanner1.py\<close> trace is either the known-entity layer or a layer
  whose contribution is its age risk plus the dispersion penalty, the penalty being
  given to upstream wallets that are not verified old ones only.\<close>

lemma scanner1_trace_body_hops:
  assumes "scanner1_trace_body e depth s = Inr out"
    and "\<forall>h \<in> set (chain_info s).
       (is_cex h \<and> is_verified_old h = None \<and> is_distributor h = None
          \<and> risk_contribution h = - 20) \<or>
       (\<not> is_cex h \<and> (\<exists>v dist. is_verified_old h = Some v \<and> is_distributor h = Some dist
          \<and> (dist \<longrightarrow> 0 < layer h \<and> \<not> v) \<and> (v \<longrightarrow> 180 < age_days h)
          \<and> risk_contribution h =
              scanner1_age_risk (layer h) (age_days h) v + (if dist then 30 else 0)))"
  shows "\<forall>h \<in> set (chain_info (state_of out)).
       (is_cex h \<and> is_verified_old h = None \<and> is_distributor h = None
          \<and> risk_contribution h = - 20) \<or>
       (\<not> is_cex h \<and> (\<exists>v dist. is_verified_old h = Some v \<and> is_distributor h = Some dist
          \<and> (dist \<longrightarrow> 0 < layer h \<and> \<not> v) \<and> (v \<longrightarrow> 180 < age_days h)
          \<and> risk_contribution h =
              scanner1_age_risk (layer h) (age_days h) v + (if dist then 30 else 0)))"
  using assms(1)
proof (cases rule: scanner1_trace_body_cases)
  case unresolved
  with assms(2) show ?thesis by (simp add: state_of_def)
next
  case (hop d h v dist ad0 hours st')
  then have st: "state_of out = st'" by (simp add: state_of_def)
  have dv: "dist \<longrightarrow> 0 < layer h \<and> \<not> v"
    using hop(5,6) scanner1_dispersion_True [of e depth v "current_addr s"] by auto
  have vv: "v \<longrightarrow> 180 < age_days h"
    using hop(4) scanner1_true_age_verified [of e "current_addr s" ad0 "tx_count d" "now st'" "age_days h"]
    by auto
  have new: "\<not> is_cex h \<and> (\<exists>v dist. is_verified_old h = Some v \<and> is_distributor h = Some dist
          \<and> (dist \<longrightarrow> 0 < layer h \<and> \<not> v) \<and> (v \<longrightarrow> 180 < age_days h)
          \<and> risk_contribution h =
              scanner1_age_risk (layer h) (age_days h) v + (if dist then 30 else 0))"
    using hop(6,8,9,10,11) dv vv by blast
  have cex: "is_cex (scanner1_cex_layer depth d)"
    "is_verified_old (scanner1_cex_layer depth d) = None"
    "is_distributor (scanner1_cex_layer depth d) = None"
    "risk_contribution (scanner1_cex_layer depth d) = - 20"
    by (simp_all add: scanner1_cex_layer_def)
  have "set (chain_info st') \<subseteq> set (chain_info s) \<union> {h, scanner1_cex_layer depth d}"
    using hop(13) by auto
  with assms(2) new cex show ?thesis
    unfolding st by blast
qed

lemma Scanner_known_entity_True:
  "Scanner_known_entity e depth addr = Inr (True, n) \<Longrightarrow> 0 < depth"
  by (auto simp: Scanner_known_entity_def split: if_splits)

lemma Scanner_dispersion_True:
  "Scanner_dispersion e depth addr = Inr True \<Longrightarrow> 0 < depth"
  by (auto simp: Scanner_dispersion_def split: if_splits)

text \<open>Every layer of a \<^verbatim>\<open>Scanner.py\<close> trace is either a trusted-entity layer or a layer
  whose contribution is its age risk plus the dispersion penalty.\<close>

lemma Scanner_trace_body_hops:
  assumes "Scanner_trace_body e depth s = Inr out"
    and "\<forall>h \<in> set (chain_info s). is_verified_old h = None \<and>
       ((is_cex h \<and> is_distributor h = Some False \<and> risk_contribution h = - 10) \<or>
        (\<not> is_cex h \<and> (\<exists>dist. is_distributor h = Some dist \<and> (dist \<longrightarrow> 0 < layer h)
          \<and> risk_contribution h =
              Scanner_age_risk (layer h) (age_days h) + (if dist then 50 else 0))))"
  shows "\<forall>h \<in> set (chain_info (state_of out)). is_verified_old h = None \<and>
       ((is_cex h \<and> is_distributor h = Some False \<and> risk_contribution h = - 10) \<or>
        (\<not> is_cex h \<and> (\<exists>dist. is_distributor h = Some dist \<and> (dist \<longrightarrow> 0 < layer h)
          \<and> risk_contribution h =
              Scanner_age_risk (layer h) (age_days h) + (if dist then 50 else 0))))"
  using assms(1)
proof (cases rule: Scanner_trace_body_cases)
  case unresolved
  with assms(2) show ?thesis by (simp add: state_of_def)
next
  case (known d h known_name st')
  then have st: "state_of out = st'" by (simp add: state_of_def)
  from known have "set (chain_info st') \<subseteq> set (chain_info s) \<union> {h}" by auto
  moreover from known
  have "is_verified_old h = None \<and> is_cex h \<and> is_distributor h = Some False
      \<and> risk_contribution h = - 10"
    by simp
  ultimately show ?thesis
    using assms(2) unfolding st by blast
next
  case (hop d h dist known_name st')
  then have st: "state_of out = st'" by (simp add: state_of_def)
  from hop have sub: "set (chain_info st') \<subseteq> set (chain_info s) \<union> {h}" by auto
  have "dist \<longrightarrow> 0 < layer h"
    using hop(4,5) Scanner_dispersion_True [of e depth "current_addr s"] by auto
  with hop(5,7,8,9,10)
  have "is_verified_old h = None \<and> \<not> is_cex h \<and>
      (\<exists>dist. is_distributor h = Some dist \<and> (dist \<longrightarrow> 0 < layer h)
          \<and> risk_contribution h =
              Scanner_age_risk (layer h) (age_days h) + (if dist then 50 else 0))"
    by blast
  with sub show ?thesis
    using assms(2) unfolding st by blast
qed

lemma scanner1_trace_hops:
  assumes "scanner1_trace_funding_source e start max_depth = Inr r"
  shows "\<forall>h \<in> set (chain r).
       (is_cex h \<and> is_verified_old h = None \<and> is_distributor h = None
          \<and> risk_contribution h = - 20) \<or>
       (\<not> is_cex h \<and> (\<exists>v dist. is_verified_old h = Some v \<and> is_distributor h = Some dist
          \<and> (dist \<longrightarrow> 0 < layer h \<and> \<not> v) \<and> (v \<longrightarrow> 180 < age_days h)
          \<and> risk_contribution h =
              scanner1_age_risk (layer h) (age_days h) v + (if dist then 30 else 0)))"
proof -
  from assms obtain st' where
    loop: "scanner1_trace_loop e [0 ..< max_depth + 1]
       \<lparr>chain_info = [], current_addr = start, trace_risk_score = 0,
        trace_stop_reason = ''Max depth reached'', now = None\<rparr> = Inr st'"
    and r: "r = result_of st'"
    using scanner1_trace_funding_source_Inr by blast
  have "\<forall>h \<in> set (chain_info st').
       (is_cex h \<and> is_verified_old h = None \<and> is_distributor h = None
          \<and> risk_contribution h = - 20) \<or>
       (\<not> is_cex h \<and> (\<exists>v dist. is_verified_old h = Some v \<and> is_distributor h = Some dist
          \<and> (dist \<longrightarrow> 0 < layer h \<and> \<not> v) \<and> (v \<longrightarrow> 180 < age_days h)
          \<and> risk_contribution h =
              scanner1_age_risk (layer h) (age_days h) v + (if dist then 30 else 0)))"
    by (rule scanner1_trace_loop_invariant [OF loop]) (simp, rule scanner1_trace_body_hops)
  with r show ?thesis by (simp add: result_of_def)
qed

lemma Scanner_trace_hops:
  assumes "Scanner_trace_funding_source e start max_depth = Inr r"
  shows "\<forall>h \<in> set (chain r). is_verified_old h = None \<and>
       ((is_cex h \<and> is_distributor h = Some False \<and> risk_contribution h = - 10) \<or>
        (\<not> is_cex h \<and> (\<exists>dist. is_distributor h = Some dist \<and> (dist \<longrightarrow> 0 < layer h)
          \<and> risk_contribution h =
              Scanner_age_risk (layer h) (age_days h) + (if dist then 50 else 0))))"
proof -
  from assms obtain st' where
    loop: "Scanner_trace_loop e [0 ..< max_depth + 1]
       \<lparr>chain_info = [], current_addr = start, trace_risk_score = 20,
        trace_stop_reason = ''Max depth reached'', now = None\<rparr> = Inr st'"
    and r: "r = result_of st'"
    using Scanner_trace_funding_source_Inr by blast
  have "\<forall>h \<in> set (chain_info st'). is_verified_old h = None \<and>
       ((is_cex h \<and> is_distributor h = Some False \<and> risk_contribution h = - 10) \<or>
        (\<not> is_cex h \<and> (\<exists>dist. is_distributor h = Some dist \<and> (dist \<longrightarrow> 0 < layer h)
          \<and> risk_contribution h =
              Scanner_age_risk (layer h) (age_days h) + (if dist then 50 else 0))))"
    by (rule Scanner_trace_loop_invariant [OF loop]) (simp, rule Scanner_trace_body_hops)
  with r show ?thesis by (simp add: result_of_def)
qed

lemma sum_list_all_zero:
  "\<forall>x \<in> set xs. f x = (0::int) \<Longrightarrow> sum_list (map f xs) = 0"
  by (induction xs) auto

text \<open>
  Claim C10.  \<^verbatim>\<open>Scanner.py\<close> starts the running total at 20 and \<^verbatim>\<open>scanner1.py\<close> at 0: a
  returned trace none of whose hops is a known-entity hop, is marked as a distributor
  or has a non-zero age risk has the score 20 in the former and 0 in the latter.
\<close>

theorem trace_funding_source_initial_score:
  "(Scanner_trace_funding_source e start max_depth = Inr r \<longrightarrow>
      (\<forall>h \<in> set (chain r). \<not> is_cex h \<and> is_distributor h \<noteq> Some True
          \<and> Scanner_age_risk (layer h) (age_days h) = 0) \<longrightarrow>
      score r = 20) \<and>
   (scanner1_trace_funding_source e start max_depth = Inr r' \<longrightarrow>
      (\<forall>h \<in> set (chain r'). \<not> is_cex h \<and> is_distributor h \<noteq> Some True
          \<and> scanner1_age_risk (layer h) (age_days h) (is_verified_old h = Some True) = 0) \<longrightarrow>
      score r' = 0)"
proof (intro conjI impI)
  assume run: "Scanner_trace_funding_source e start max_depth = Inr r"
    and quiet: "\<forall>h \<in> set (chain r). \<not> is_cex h \<and> is_distributor h \<noteq> Some True
          \<and> Scanner_age_risk (layer h) (age_days h) = 0"
  have "\<forall>h \<in> set (chain r). risk_contribution h = 0"
  proof
    fix h assume h: "h \<in> set (chain r)"
    with quiet have q: "\<not> is_cex h" "is_distributor h \<noteq> Some True"
      "Scanner_age_risk (layer h) (age_days h) = 0"
      by simp_all
    from Scanner_trace_hops [OF run] h q(1) obtain dist where
      "is_distributor h = Some dist"
      "risk_contribution h = Scanner_age_risk (layer h) (age_days h) + (if dist then 50 else 0)"
      by blast
    with q(2,3) show "risk_contribution h = 0" by (cases dist) simp_all
  qed
  then have "sum_list (map risk_contribution (chain r)) = 0"
    by (rule sum_list_all_zero)
  with Scanner_score_accounting [OF run] show "score r = 20" by simp
next
  assume run: "scanner1_trace_funding_source e start max_depth = Inr r'"
    and quiet: "\<forall>h \<in> set (chain r'). \<not> is_cex h \<and> is_distributor h \<noteq> Some True
          \<and> scanner1_age_risk (layer h) (age_days h) (is_verified_old h = Some True) = 0"
  have "\<forall>h \<in> set (chain r'). risk_contribution h = 0"
  proof
    fix h assume h: "h \<in> set (chain r')"
    with quiet have q: "\<not> is_cex h" "is_distributor h \<noteq> Some True"
      "scanner1_age_risk (layer h) (age_days h) (is_verified_old h = Some True) = 0"
      by simp_all
    from scanner1_trace_hops [OF run] h q(1) obtain v dist where
      "is_verified_old h = Some v" "is_distributor h = Some dist"
      "risk_contribution h = scanner1_age_risk (layer h) (age_days h) v + (if dist then 30 else 0)"
      by blast
    with q(2,3) show "risk_contribution h = 0" by (cases dist; cases v) simp_all
  qed
  then have "sum_list (map risk_contribution (chain r')) = 0"
    by (rule sum_list_all_zero)
  moreover from quiet have "filter is_cex (chain r') = []"
    by (simp add: filter_empty_conv)
  ultimately show "score r' = 0"
    using scanner1_score_accounting [OF run] by simp
qed

text \<open>When every request about the wallet \<open>D\<close> fails, its trace (one hop of unknown
  age) has the score 20 in \<^verbatim>\<open>Scanner.py\<close> and 0 in \<^verbatim>\<open>scanner1.py\<close>.\<close>

theorem trace_funding_source_initial_score_witness:
  "(\<exists>r. Scanner_trace_funding_source silent (Some ''D'') 3 = Inr r
        \<and> length (chain r) = 1 \<and> score r = 20) \<and>
   (\<exists>r. scanner1_trace_funding_source silent (Some ''D'') 3 = Inr r
        \<and> length (chain r) = 1 \<and> score r = 0)"
proof -
  have "case Scanner_trace_funding_source silent (Some ''D'') 3 of
          Inr r \<Rightarrow> length (chain r) = 1 \<and>
            (\<forall>h \<in> set (chain r). \<not> is_cex h \<and> is_distributor h \<noteq> Some True
               \<and> Scanner_age_risk (layer h) (age_days h) = 0)
        | Inl _ \<Rightarrow> False"
    by code_simp
  then obtain r where r: "Scanner_trace_funding_source silent (Some ''D'') 3 = Inr r"
    "length (chain r) = 1"
    "\<forall>h \<in> set (chain r). \<not> is_cex h \<and> is_distributor h \<noteq> Some True
               \<and> Scanner_age_risk (layer h) (age_days h) = 0"
    by (auto split: sum.splits)
  have "case scanner1_trace_funding_source silent (Some ''D'') 3 of
          Inr r \<Rightarrow> length (chain r) = 1 \<and>
            (\<forall>h \<in> set (chain r). \<not> is_cex h \<and> is_distributor h \<noteq> Some True
               \<and> scanner1_age_risk (layer h) (age_days h) (is_verified_old h = Some True) = 0)
        | Inl _ \<Rightarrow> False"
    by code_simp
  then obtain r' where r': "scanner1_trace_funding_source silent (Some ''D'') 3 = Inr r'"
    "length (chain r') = 1"
    "\<forall>h \<in> set (chain r'). \<not> is_cex h \<and> is_distributor h \<noteq> Some True
               \<and> scanner1_age_risk (layer h) (age_days h) (is_verified_old h = Some True) = 0"
    by (auto split: sum.splits)
  from trace_funding_source_initial_score [of silent "Some ''D''" 3 r] r
  have "score r = 20" by simp
  moreover from trace_funding_source_initial_score [of silent "Some ''D''" 3 _ r'] r'
  have "score r' = 0" by simp
  ultimately show ?thesis using r(1,2) r'(1,2) by simp
qed

section \<open>The requests of the dispersion detector\<close>

lemma with_outgoing_simps:
  "transfers (with_outgoing e f) (QTo a) = transfers e (QTo a)"
  "transfers (with_outgoing e f) (QBase a) = transfers e (QBase a)"
  "transfers (with_outgoing e f) (QFrom a) = f a"
  "intelligence (with_outgoing e f) = intelligence e"
  "history (with_outgoing e f) = history e"
  "fromisoformat (with_outgoing e f) = fromisoformat e"
  "clock (with_outgoing e f) = clock e"
  by (simp_all add: with_outgoing_def)

lemma with_outgoing_fetch:
  "fetch_tx_list (with_outgoing e f) a = fetch_tx_list e a"
  "parse_creation_time (with_outgoing e f) ts = parse_creation_time e ts"
  "get_true_age_via_history (with_outgoing e f) a = get_true_age_via_history e a"
  "check_is_known_entity (with_outgoing e f) addr = check_is_known_entity e addr"
  unfolding fetch_tx_list_def parse_creation_time_def get_true_age_via_history_def
    check_is_known_entity_def with_outgoing_simps
  by (rule refl)+

lemma with_outgoing_details:
  "scanner1_get_address_details (with_outgoing e f) addr = scanner1_get_address_details e addr"
  "Scanner_get_address_details (with_outgoing e f) addr = Scanner_get_address_details e addr"
  unfolding scanner1_get_address_details_def Scanner_get_address_details_def with_outgoing_fetch
  by (rule refl)+

lemma with_outgoing_age:
  "scanner1_age (with_outgoing e f) depth ct nv = scanner1_age e depth ct nv"
  "scanner1_true_age (with_outgoing e f) addr ad0 txc nv = scanner1_true_age e addr ad0 txc nv"
  "Scanner_age (with_outgoing e f) depth ct = Scanner_age e depth ct"
  "Scanner_known_entity (with_outgoing e f) depth addr = Scanner_known_entity e depth addr"
  unfolding scanner1_age_def scanner1_true_age_def Scanner_age_def Scanner_known_entity_def
    with_outgoing_fetch with_outgoing_simps
  by (rule refl)+

lemma with_outgoing_analyze:
  assumes "\<forall>a. addr = Some a \<longrightarrow> f a = transfers e (QFrom a)"
  shows "analyze_dispersion_pattern (with_outgoing e f) addr = analyze_dispersion_pattern e addr"
  using assms
  by (cases addr) (simp_all add: analyze_dispersion_pattern_def with_outgoing_simps)

lemma scanner1_trace_body_extends:
  assumes "scanner1_trace_body e depth s = Inr out"
  shows "set (chain_info s) \<subseteq> set (chain_info (state_of out))"
  using assms
proof (cases rule: scanner1_trace_body_cases)
  case unresolved
  then show ?thesis by (simp add: state_of_def)
next
  case (hop d h v dist ad0 hours st')
  then have "state_of out = st'" by (simp add: state_of_def)
  with hop(13) show ?thesis by auto
qed

lemma scanner1_trace_loop_extends:
  assumes "scanner1_trace_loop e ds st = Inr st'"
  shows "set (chain_info st) \<subseteq> set (chain_info st')"
  by (rule scanner1_trace_loop_invariant [OF assms, where P = "\<lambda>s. set (chain_info st) \<subseteq> set (chain_info s)"])
    (use scanner1_trace_body_extends in blast)+

lemma scanner1_trace_body_outgoing:
  assumes "scanner1_trace_body e depth s = Inr out"
    and "\<forall>h \<in> set (chain_info (state_of out)).
       0 < layer h \<and> is_verified_old h = Some False \<longrightarrow>
       (\<forall>a. address h = Some a \<longrightarrow> f a = transfers e (QFrom a))"
  shows "scanner1_trace_body (with_outgoing e f) depth s = Inr out"
  using assms(1)
proof (cases rule: scanner1_trace_body_cases)
  case unresolved
  then show ?thesis
    by (simp add: scanner1_trace_body_def with_outgoing_details)
next
  case (hop d h v dist ad0 hours st')
  then have st: "state_of out = st'" by (simp add: state_of_def)
  from hop(13) have hin: "h \<in> set (chain_info st')" by simp
  have "scanner1_dispersion (with_outgoing e f) depth v (current_addr s)
      = scanner1_dispersion e depth v (current_addr s)"
  proof (cases "0 < depth \<and> \<not> v")
    case True
    with hop(6,7,9) hin assms(2) [unfolded st]
    have "\<forall>a. current_addr s = Some a \<longrightarrow> f a = transfers e (QFrom a)"
      by auto
    then show ?thesis
      by (simp add: scanner1_dispersion_def with_outgoing_analyze)
  next
    case False
    then show ?thesis by (auto simp: scanner1_dispersion_def)
  qed
  then have "scanner1_trace_body (with_outgoing e f) depth s = scanner1_trace_body e depth s"
    using hop(1,2,4)
    by (simp add: scanner1_trace_body_def with_outgoing_details with_outgoing_age)
  with assms(1) show ?thesis by simp
qed

lemma scanner1_trace_loop_outgoing:
  assumes "scanner1_trace_loop e ds st = Inr st'"
    and "\<forall>h \<in> set (chain_info st').
       0 < layer h \<and> is_verified_old h = Some False \<longrightarrow>
       (\<forall>a. address h = Some a \<longrightarrow> f a = transfers e (QFrom a))"
  shows "scanner1_trace_loop (with_outgoing e f) ds st = Inr st'"
  using assms(1)
proof (induction ds arbitrary: st)
  case Nil
  then show ?case by simp
next
  case (Cons depth rest)
  show ?case
  proof (cases "scanner1_trace_body e depth st")
    case (Inl err)
    with Cons.prems show ?thesis by simp
  next
    case (Inr out)
    show ?thesis
    proof (cases out)
      case (Break s)
      with Inr Cons.prems have "st' = s" by simp
      with Break assms(2) Inr
      have "scanner1_trace_body (with_outgoing e f) depth st = Inr out"
        by (intro scanner1_trace_body_outgoing) (simp_all add: state_of_def)
      with Break \<open>st' = s\<close> show ?thesis by simp
    next
      case (Continue s)
      with Inr Cons.prems have rest: "scanner1_trace_loop e rest s = Inr st'" by simp
      from scanner1_trace_loop_extends [OF rest] assms(2) Continue Inr
      have "scanner1_trace_body (with_outgoing e f) depth st = Inr out"
        by (intro scanner1_trace_body_outgoing) (auto simp: state_of_def)
      with Continue Cons.IH [OF rest] show ?thesis by simp
    qed
  qed
qed

lemma Scanner_trace_body_extends:
  assumes "Scanner_trace_body e depth s = Inr out"
  shows "set (chain_info s) \<subseteq> set (chain_info (state_of out))"
  using assms
proof (cases rule: Scanner_trace_body_cases)
  case unresolved
  then show ?thesis by (simp add: state_of_def)
next
  case (known d h known_name st')
  then have "state_of out = st'" by (simp add: state_of_def)
  with known(10) show ?thesis by auto
next
  case (hop d h dist known_name st')
  then have "state_of out = st'" by (simp add: state_of_def)
  with hop(11) show ?thesis by auto
qed

lemma Scanner_trace_loop_extends:
  assumes "Scanner_trace_loop e ds st = Inr st'"
  shows "set (chain_info st) \<subseteq> set (chain_info st')"
  by (rule Scanner_trace_loop_invariant [OF assms, where P = "\<lambda>s. set (chain_info st) \<subseteq> set (chain_info s)"])
    (use Scanner_trace_body_extends in blast)+

lemma Scanner_trace_body_outgoing:
  assumes "Scanner_trace_body e depth s = Inr out"
    and "\<forall>h \<in> set (chain_info (state_of out)).
       0 < layer h \<and> \<not> is_cex h \<longrightarrow>
       (\<forall>a. address h = Some a \<longrightarrow> f a = transfers e (QFrom a))"
  shows "Scanner_trace_body (with_outgoing e f) depth s = Inr out"
  using assms(1)
proof (cases rule: Scanner_trace_body_cases)
  case unresolved
  then show ?thesis
    by (simp add: Scanner_trace_body_def with_outgoing_details)
next
  case (known d h known_name st')
  then have "Scanner_trace_body (with_outgoing e f) depth s = Scanner_trace_body e depth s"
    by (cases "Scanner_age e depth (creation_time d)")
      (simp_all add: Scanner_trace_body_def with_outgoing_details with_outgoing_age Let_def)
  with assms(1) show ?thesis by simp
next
  case (hop d h dist known_name st')
  then have st: "state_of out = st'" by (simp add: state_of_def)
  from hop(11) have hin: "h \<in> set (chain_info st')" by simp
  have "Scanner_dispersion (with_outgoing e f) depth (current_addr s)
      = Scanner_dispersion e depth (current_addr s)"
  proof (cases "0 < depth")
    case True
    with hop(5,6,7) hin assms(2) [unfolded st]
    have "\<forall>a. current_addr s = Some a \<longrightarrow> f a = transfers e (QFrom a)"
      by auto
    then show ?thesis
      by (simp add: Scanner_dispersion_def with_outgoing_analyze)
  next
    case False
    then show ?thesis by (simp add: Scanner_dispersion_def)
  qed
  then have "Scanner_trace_body (with_outgoing e f) depth s = Scanner_trace_body e depth s"
    using hop(1,2,3)
    by (simp add: Scanner_trace_body_def with_outgoing_details with_outgoing_age)
  with assms(1) show ?thesis by simp
qed

lemma Scanner_trace_loop_outgoing:
  assumes "Scanner_trace_loop e ds st = Inr st'"
    and "\<forall>h \<in> set (chain_info st').
       0 < layer h \<and> \<not> is_cex h \<longrightarrow>
       (\<forall>a. address h = Some a \<longrightarrow> f a = transfers e (QFrom a))"
  shows "Scanner_trace_loop (with_outgoing e f) ds st = Inr st'"
  using assms(1)
proof (induction ds arbitrary: st)
  case Nil
  then show ?case by simp
next
  case (Cons depth rest)
  show ?case
  proof (cases "Scanner_trace_body e depth st")
    case (Inl err)
    with Cons.prems show ?thesis by simp
  next
    case (Inr out)
    show ?thesis
    proof (cases out)
      case (Break s)
      with Inr Cons.prems have "st' = s" by simp
      with Break assms(2) Inr
      have "Scanner_trace_body (with_outgoing e f) depth st = Inr out"
        by (intro Scanner_trace_body_outgoing) (simp_all add: state_of_def)
      with Break \<open>st' = s\<close> show ?thesis by simp
    next
      case (Continue s)
      with Inr Cons.prems have rest: "Scanner_trace_loop e rest s = Inr st'" by simp
      from Scanner_trace_loop_extends [OF rest] assms(2) Continue Inr
      have "Scanner_trace_body (with_outgoing e f) depth st = Inr out"
        by (intro Scanner_trace_body_outgoing) (auto simp: state_of_def)
      with Continue Cons.IH [OF rest] show ?thesis by simp
    qed
  qed
qed

lemma scanner1_trace_funding_source_outgoing:
  assumes "scanner1_trace_funding_source e start max_depth = Inr r"
    and "\<forall>h \<in> set (chain r).
       0 < layer h \<and> is_verified_old h = Some False \<longrightarrow>
       (\<forall>a. address h = Some a \<longrightarrow> f a = transfers e (QFrom a))"
  shows "scanner1_trace_funding_source (with_outgoing e f) start max_depth = Inr r"
proof -
  from assms(1) obtain st' where
    loop: "scanner1_trace_loop e [0 ..< max_depth + 1]
       \<lparr>chain_info = [], current_addr = start, trace_risk_score = 0,
        trace_stop_reason = ''Max depth reached'', now = None\<rparr> = Inr st'"
    and r: "r = result_of st'"
    using scanner1_trace_funding_source_Inr by blast
  from assms(2) r have "\<forall>h \<in> set (chain_info st').
       0 < layer h \<and> is_verified_old h = Some False \<longrightarrow>
       (\<forall>a. address h = Some a \<longrightarrow> f a = transfers e (QFrom a))"
    by (simp add: result_of_def)
  from scanner1_trace_loop_outgoing [OF loop this] r show ?thesis
    by (simp add: scanner1_trace_funding_source_def)
qed

lemma Scanner_trace_funding_source_outgoing:
  assumes "Scanner_trace_funding_source e start max_depth = Inr r"
    and "\<forall>h \<in> set (chain r).
       0 < layer h \<and> \<not> is_cex h \<longrightarrow>
       (\<forall>a. address h = Some a \<longrightarrow> f a = transfers e (QFrom a))"
  shows "Scanner_trace_funding_source (with_outgoing e f) start max_depth = Inr r"
proof -
  from assms(1) obtain st' where
    loop: "Scanner_trace_loop e [0 ..< max_depth + 1]
       \<lparr>chain_info = [], current_addr = start, trace_risk_score = 20,
        trace_stop_reason = ''Max depth reached'', now = None\<rparr> = Inr st'"
    and r: "r = result_of st'"
    using Scanner_trace_funding_source_Inr by blast
  from assms(2) r have "\<forall>h \<in> set (chain_info st').
       0 < layer h \<and> \<not> is_cex h \<longrightarrow>
       (\<forall>a. address h = Some a \<longrightarrow> f a = transfers e (QFrom a))"
    by (simp add: result_of_def)
  from Scanner_trace_loop_outgoing [OF loop this] r show ?thesis
    by (simp add: Scanner_trace_funding_source_def)
qed

text \<open>
  Claim C5.  In a returned trace of \<^verbatim>\<open>scanner1.py\<close>, a hop is marked as a distributor
  only if its depth is greater than 0 and it is not a verified old wallet; a verified
  old wallet is never marked and its contribution is the bare reduction of 10, without
  the dispersion penalty.  The detector being the only reader of the outgoing
  transfers, that it is not called for the other hops shows as follows: replacing the
  answers \<open>f\<close> to the outgoing-transfer requests for every address but those of the
  upstream hops that are not verified old wallets leaves the whole trace unchanged.
  \<^verbatim>\<open>Scanner.py\<close> has no verified old wallets; there the same holds for the upstream hops
  that are not trusted-entity hops.
\<close>

theorem dispersion_detector_gate:
  "(scanner1_trace_funding_source e start max_depth = Inr r \<longrightarrow>
      (\<forall>h \<in> set (chain r).
          (is_distributor h = Some True \<longrightarrow> 0 < layer h \<and> is_verified_old h = Some False) \<and>
          (is_verified_old h = Some True \<longrightarrow>
             is_distributor h = Some False \<and> risk_contribution h = - 10)) \<and>
      ((\<forall>h \<in> set (chain r). 0 < layer h \<and> is_verified_old h = Some False \<longrightarrow>
           (\<forall>a. address h = Some a \<longrightarrow> f a = transfers e (QFrom a))) \<longrightarrow>
       scanner1_trace_funding_source (with_outgoing e f) start max_depth = Inr r)) \<and>
   (Scanner_trace_funding_source e start max_depth = Inr r' \<longrightarrow>
      (\<forall>h \<in> set (chain r').
          is_verified_old h = None \<and> (is_distributor h = Some True \<longrightarrow> 0 < layer h)) \<and>
      ((\<forall>h \<in> set (chain r'). 0 < layer h \<and> \<not> is_cex h \<longrightarrow>
           (\<forall>a. address h = Some a \<longrightarrow> f a = transfers e (QFrom a))) \<longrightarrow>
       Scanner_trace_funding_source (with_outgoing e f) start max_depth = Inr r'))"
proof (intro conjI impI ballI)
  fix h
  assume run: "scanner1_trace_funding_source e start max_depth = Inr r"
    and h: "h \<in> set (chain r)"
  from bspec [OF scanner1_trace_hops [OF run] h]
  consider (entity) "is_verified_old h = None" "is_distributor h = None"
    | (wallet) v dist where "is_verified_old h = Some v" "is_distributor h = Some dist"
        "dist \<longrightarrow> 0 < layer h \<and> \<not> v" "v \<longrightarrow> 180 < age_days h"
        "risk_contribution h = scanner1_age_risk (layer h) (age_days h) v + (if dist then 30 else 0)"
    by (elim disjE conjE exE; blast)
  note shape = this
  {
    assume "is_distributor h = Some True"
    with shape show "0 < layer h" by cases auto
  next
    assume "is_distributor h = Some True"
    with shape show "is_verified_old h = Some False" by cases auto
  next
    assume "is_verified_old h = Some True"
    with shape show "is_distributor h = Some False" by cases auto
  next
    assume "is_verified_old h = Some True"
    with shape show "risk_contribution h = - 10"
      by cases (auto simp: scanner1_age_risk_def)
  }
next
  assume "scanner1_trace_funding_source e start max_depth = Inr r"
    and "\<forall>h \<in> set (chain r). 0 < layer h \<and> is_verified_old h = Some False \<longrightarrow>
           (\<forall>a. address h = Some a \<longrightarrow> f a = transfers e (QFrom a))"
  then show "scanner1_trace_funding_source (with_outgoing e f) start max_depth = Inr r"
    by (rule scanner1_trace_funding_source_outgoing)
next
  fix h
  assume run: "Scanner_trace_funding_source e start max_depth = Inr r'"
    and h: "h \<in> set (chain r')"
  from Scanner_trace_hops [OF run] h show "is_verified_old h = None" by blast
  {
    assume "is_distributor h = Some True"
    with Scanner_trace_hops [OF run] h show "0 < layer h" by auto
  }
next
  assume "Scanner_trace_funding_source e start max_depth = Inr r'"
    and "\<forall>h \<in> set (chain r'). 0 < layer h \<and> \<not> is_cex h \<longrightarrow>
           (\<forall>a. address h = Some a \<longrightarrow> f a = transfers e (QFrom a))"
  then show "Scanner_trace_funding_source (with_outgoing e f) start max_depth = Inr r'"
    by (rule Scanner_trace_funding_source_outgoing)
qed

text \<open>
  The busy wallet \<open>H\<close>, one hop above the deployer, has outgoing transfers on which
  the detector answers true; it is a verified old wallet, so its hop is not marked and
  contributes -10, and the trace is the same when all outgoing-transfer requests fail.
\<close>

theorem dispersion_detector_gate_witness:
  "analyze_dispersion_pattern hot_wallet (Some ''H'') = Inr True \<and>
   (\<exists>r. scanner1_trace_funding_source hot_wallet (Some ''D'') 3 = Inr r
      \<and> (\<exists>h \<in> set (chain r). address h = Some ''H'' \<and> layer h = 1
            \<and> is_verified_old h = Some True \<and> is_distributor h = Some False
            \<and> risk_contribution h = - 10)
      \<and> scanner1_trace_funding_source (with_outgoing hot_wallet (\<lambda>_. None)) (Some ''D'') 3
          = Inr r) \<and>
   (\<exists>r. Scanner_trace_funding_source hot_wallet (Some ''D'') 3 = Inr r
      \<and> (\<exists>h \<in> set (chain r). address h = Some ''H'' \<and> layer h = 1
            \<and> is_distributor h = Some True)
      \<and> Scanner_trace_funding_source
            (with_outgoing hot_wallet (\<lambda>a. if a = ''H'' then Some (JList txs_25_21) else None))
            (Some ''D'') 3 = Inr r)"
proof -
  have det: "analyze_dispersion_pattern hot_wallet (Some ''H'') = Inr True"
    by code_simp
  have "case scanner1_trace_funding_source hot_wallet (Some ''D'') 3 of
          Inr r \<Rightarrow>
            (\<exists>h \<in> set (chain r). address h = Some ''H'' \<and> layer h = 1
               \<and> is_verified_old h = Some True) \<and>
            (\<forall>h \<in> set (chain r). 0 < layer h \<and> is_verified_old h = Some False \<longrightarrow>
               (\<forall>a \<in> set (case address h of None \<Rightarrow> [] | Some a \<Rightarrow> [a]).
                  None = transfers hot_wallet (QFrom a)))
        | Inl _ \<Rightarrow> False"
    by code_simp
  then obtain r where r: "scanner1_trace_funding_source hot_wallet (Some ''D'') 3 = Inr r"
    and rh: "\<exists>h \<in> set (chain r). address h = Some ''H'' \<and> layer h = 1
               \<and> is_verified_old h = Some True"
    and ra: "\<forall>h \<in> set (chain r). 0 < layer h \<and> is_verified_old h = Some False \<longrightarrow>
               (\<forall>a \<in> set (case address h of None \<Rightarrow> [] | Some a \<Rightarrow> [a]).
                  None = transfers hot_wallet (QFrom a))"
    by (auto split: sum.splits)
  from ra have ra': "\<forall>h \<in> set (chain r). 0 < layer h \<and> is_verified_old h = Some False \<longrightarrow>
      (\<forall>a. address h = Some a \<longrightarrow> (\<lambda>_. None) a = transfers hot_wallet (QFrom a))"
    by auto
  note g1 = dispersion_detector_gate [of hot_wallet "Some ''D''" 3 r "\<lambda>_. None",
      THEN conjunct1, rule_format, OF r]
  from g1 ra' have same: "scanner1_trace_funding_source (with_outgoing hot_wallet (\<lambda>_. None))
      (Some ''D'') 3 = Inr r"
    by blast
  from g1 rh have hop: "\<exists>h \<in> set (chain r). address h = Some ''H'' \<and> layer h = 1
      \<and> is_verified_old h = Some True \<and> is_distributor h = Some False
      \<and> risk_contribution h = - 10"
    by blast
  have "case Scanner_trace_funding_source hot_wallet (Some ''D'') 3 of
          Inr r \<Rightarrow>
            (\<exists>h \<in> set (chain r). address h = Some ''H'' \<and> layer h = 1
               \<and> is_distributor h = Some True) \<and>
            (\<forall>h \<in> set (chain r). 0 < layer h \<and> \<not> is_cex h \<longrightarrow>
               (\<forall>a \<in> set (case address h of None \<Rightarrow> [] | Some a \<Rightarrow> [a]).
                  (if a = ''H'' then Some (JList txs_25_21) else None)
                    = transfers hot_wallet (QFrom a)))
        | Inl _ \<Rightarrow> False"
    by code_simp
  then obtain r' where r': "Scanner_trace_funding_source hot_wallet (Some ''D'') 3 = Inr r'"
    and rh': "\<exists>h \<in> set (chain r'). address h = Some ''H'' \<and> layer h = 1
               \<and> is_distributor h = Some True"
    and ra': "\<forall>h \<in> set (chain r'). 0 < layer h \<and> \<not> is_cex h \<longrightarrow>
               (\<forall>a \<in> set (case address h of None \<Rightarrow> [] | Some a \<Rightarrow> [a]).
                  (if a = ''H'' then Some (JList txs_25_21) else None)
                    = transfers hot_wallet (QFrom a))"
    by (auto split: sum.splits)
  from ra' have ra'': "\<forall>h \<in> set (chain r'). 0 < layer h \<and> \<not> is_cex h \<longrightarrow>
      (\<forall>a. address h = Some a \<longrightarrow>
         (\<lambda>a. if a = ''H'' then Some (JList txs_25_21) else None) a
           = transfers hot_wallet (QFrom a))"
    by auto
  note g2 = dispersion_detector_gate [of hot_wallet "Some ''D''" 3 _
      "\<lambda>a. if a = ''H'' then Some (JList txs_25_21) else None" r',
      THEN conjunct2, rule_format, OF r']
  from g2 ra'' have same': "Scanner_trace_funding_source
      (with_outgoing hot_wallet (\<lambda>a. if a = ''H'' then Some (JList txs_25_21) else None))
      (Some ''D'') 3 = Inr r'"
    by blast
  from det r hop same r' rh' same' show ?thesis by blast
qed

section \<open>Known-entity funder\<close>

text \<open>\<^verbatim>\<open>Scanner.py\<close> never attaches an entity name to a funder.\<close>

lemma Scanner_details_no_entity:
  "Scanner_get_address_details e addr = Inr (Some d) \<Longrightarrow> funder_entity d = None"
  by (auto simp: Scanner_get_address_details_def Let_def
      split: option.splits sum.splits if_splits)

text \<open>
  Claim C3, as the code has it.  When the funder found for the current address carries
  an entity name and the iteration at depth \<open>depth\<close> returns, the loop ends there,
  whatever depths were left: exactly two records are appended, the hop of the current
  address at \<open>depth\<close> and one known-entity layer at \<open>depth + 1\<close> for the funder, whose
  own reduction is 20; the running total is reduced by 40, which no record carries, and
  by those 20; the stop reason names the entity.  The reduction of the entity layer is
  the smaller of the two.
\<close>

theorem known_entity_short_circuit:
  assumes "scanner1_get_address_details e (current_addr st) = Inr (Some d)"
    and "truthy (funder_entity d)"
    and "scanner1_trace_loop e (depth # rest) st = Inr st'"
  shows "\<exists>h c. chain_info st' = chain_info st @ [h, c]
      \<and> layer h = depth \<and> address h = current_addr st \<and> \<not> is_cex h
      \<and> funded_by_entity h = funder_entity d
      \<and> layer c = depth + 1 \<and> address c = funder d \<and> is_cex c
      \<and> entity_name c = funder_entity d \<and> risk_contribution c = - 20
      \<and> trace_risk_score st' = trace_risk_score st + risk_contribution h - 40 - 20
      \<and> trace_stop_reason st' = ''Funded by Known Entity: '' @ format_opt (funder_entity d)"
proof (cases "scanner1_trace_body e depth st")
  case (Inl err)
  with assms(3) show ?thesis by simp
next
  case (Inr out)
  then show ?thesis
  proof (cases rule: scanner1_trace_body_cases)
    case unresolved
    with assms(1) show ?thesis by simp
  next
    case (hop d' h v dist ad0 hours s)
    from hop(1) assms(1) have d: "d' = d" by simp
    from hop(17) assms(2) d have "out = Break s" by simp
    with Inr assms(3) have s: "st' = s" by simp
    show ?thesis
    proof (intro exI conjI)
      show "chain_info st' = chain_info st @ [h, scanner1_cex_layer depth d]"
        using hop(13) assms(2) d s by simp
      show "funded_by_entity h = funder_entity d"
        using hop(12) assms(2) d by simp
      show "trace_risk_score st' = trace_risk_score st + risk_contribution h - 40 - 20"
        using hop(14) assms(2) d s by simp
      show "trace_stop_reason st' = ''Funded by Known Entity: '' @ format_opt (funder_entity d)"
        using hop(15) assms(2) d s by simp
    qed (use hop(6,7,8) in \<open>simp_all add: scanner1_cex_layer_def\<close>)
  qed
qed

text \<open>
  The claim as stated fails on the size of the two reductions.  The deployer \<open>D\<close>, too
  old for any age risk, was funded by an address of Binance: of the 60 points taken
  off the total, 20 are the entity layer's own and 40 are the reduction applied to the
  running total.
\<close>

theorem known_entity_short_circuit_counterexample:
  "scanner1_trace_funding_source entity_funded (Some ''D'') 3 =
     Inr \<lparr>score = - 60,
          chain =
            [\<lparr>layer = 0, address = Some ''D'', age_days = 400, age_hours = Some 12,
              is_cex = False, is_verified_old = Some False, is_distributor = Some False,
              entity_name = None, risk_contribution = 0,
              funded_by_entity = Some ''Binance''\<rparr>,
             \<lparr>layer = 1, address = Some ''B'', age_days = - 1, age_hours = None,
              is_cex = True, is_verified_old = None, is_distributor = None,
              entity_name = Some ''Binance'', risk_contribution = - 20,
              funded_by_entity = None\<rparr>],
          stop_reason = ''Funded by Known Entity: Binance''\<rparr>"
  by code_simp

text \<open>On that trace the loop is left in its first iteration, with the two records and
  the total -60.\<close>

theorem known_entity_short_circuit_witness:
  "\<exists>st'. scanner1_trace_loop entity_funded [0, 1, 2, 3]
       \<lparr>chain_info = [], current_addr = Some ''D'', trace_risk_score = 0,
        trace_stop_reason = ''Max depth reached'', now = None\<rparr> = Inr st'
     \<and> map layer (chain_info st') = [0, 1] \<and> map is_cex (chain_info st') = [False, True]
     \<and> map risk_contribution (chain_info st') = [0, - 20]
     \<and> trace_risk_score st' = - 60
     \<and> trace_stop_reason st' = ''Funded by Known Entity: Binance''"
proof -
  let ?st = "\<lparr>chain_info = [], current_addr = Some ''D'', trace_risk_score = 0,
        trace_stop_reason = ''Max depth reached'', now = None\<rparr>"
  let ?d = "\<lparr>d_address = ''D'',
        creation_time = Some \<lparr>wall = 1693440000000000, utcoffset = Some 0\<rparr>,
        funder = Some ''B'', funder_entity = Some ''Binance'', tx_count = 1\<rparr>"
  have det: "scanner1_get_address_details entity_funded (current_addr ?st) = Inr (Some ?d)"
    by code_simp
  have ent: "truthy (funder_entity ?d)"
    by (simp add: truthy_def)
  have "case scanner1_trace_loop entity_funded [0, 1, 2, 3] ?st of
          Inr st' \<Rightarrow> map risk_contribution (chain_info st') = [0, - 20] | Inl _ \<Rightarrow> False"
    by code_simp
  then obtain st' where run: "scanner1_trace_loop entity_funded [0, 1, 2, 3] ?st = Inr st'"
    and rc: "map risk_contribution (chain_info st') = [0, - 20]"
    by (auto split: sum.splits)
  from known_entity_short_circuit [OF det ent run] obtain h c where
    hc: "chain_info st' = [h, c]" "layer h = 0" "\<not> is_cex h" "layer c = 1" "is_cex c"
      "trace_risk_score st' = risk_contribution h - 40 - 20"
      "trace_stop_reason st' = ''Funded by Known Entity: '' @ format_opt (funder_entity ?d)"
    by auto
  from hc(1) rc have "risk_contribution h = 0" by simp
  with hc run rc show ?thesis
    by (simp add: format_opt_def)
qed

section \<open>Escalation to the history\<close>

lemma scanner1_details_tx_count:
  assumes "scanner1_get_address_details e (Some a) = Inr (Some d)"
    and "creation_time d \<noteq> None"
  shows "tx_count d = length (fetch_tx_list e a)"
  using assms
  by (auto simp: scanner1_get_address_details_def Let_def
      split: if_splits option.splits sum.splits prod.splits)

text \<open>The hop of an iteration, from what the two resolvers return.\<close>

lemma truncation_escalation_resolved:
  assumes "current_addr st = Some a"
    and "scanner1_get_address_details e (Some a) = Inr (Some d)"
    and "length (fetch_tx_list e a) = 100"
    and "creation_time d = Some ct"
    and "dt_sub \<lparr>wall = clock e depth, utcoffset = Some 0\<rparr> ct = Inr delta"
    and "days delta < 1"
    and "get_true_age_via_history e a = Some true_creation_time"
    and "dt_sub \<lparr>wall = clock e depth, utcoffset = Some 0\<rparr> true_creation_time = Inr true_delta"
    and "scanner1_trace_body e depth st = Inr out"
  shows "length (chain_info st) < length (chain_info (state_of out)) \<and>
     (let h = chain_info (state_of out) ! length (chain_info st) in
        layer h = depth \<and> address h = Some a \<and> age_days h = days true_delta \<and>
        is_verified_old h = Some (180 < days true_delta) \<and>
        (if 180 < days true_delta
         then is_distributor h = Some False \<and> risk_contribution h = - 10
         else True))"
  using assms(9)
proof (cases rule: scanner1_trace_body_cases)
  case unresolved
  with assms(1,2) show ?thesis by simp
next
  case (hop d' h v dist ad0 hours s)
  from hop(1) assms(1,2) have d: "d' = d" by simp
  from assms(2,4) have txc: "tx_count d = length (fetch_tx_list e a)"
    by (intro scanner1_details_tx_count) simp_all
  from hop(2) assms(4,5) d have age: "ad0 = days delta"
    "now s = Some \<lparr>wall = clock e depth, utcoffset = Some 0\<rparr>"
    by (simp_all add: scanner1_age_def Let_def)
  from hop(4) assms(1,3,6,7,8) d txc age
  have ta: "age_days h = days true_delta" "v = (180 < days true_delta)"
    by (auto simp: scanner1_true_age_def Let_def)
  have st: "state_of out = s" using hop(17) by (simp add: state_of_def)
  have nth: "chain_info s ! length (chain_info st) = h"
    using hop(13) by (simp add: nth_append)
  have len: "length (chain_info st) < length (chain_info s)"
    using hop(13) by simp
  have old: "180 < days true_delta \<Longrightarrow> is_distributor h = Some False \<and> risk_contribution h = - 10"
  proof -
    assume o: "180 < days true_delta"
    with ta have v: "v" by simp
    with hop(5) have "dist = False" by (simp add: scanner1_dispersion_def split: if_splits)
    with hop(10,11) v ta o show ?thesis by (simp add: scanner1_age_risk_def)
  qed
  show ?thesis
    unfolding st Let_def nth
    using len hop(6,7,9) ta old assms(1) by simp
qed

lemma sorted_first_Min:
  assumes "xs \<noteq> []"
  obtains x where "sorted_first f xs = Some x" "x \<in> set xs" "f x = Min (set (map f xs))"
proof -
  have "set (sort_key f xs) = set xs" by simp
  have "sort_key f xs \<noteq> []" by (metis assms set_empty set_sort)
  then obtain x rest where ys: "sort_key f xs = x # rest" by (cases "sort_key f xs") auto
  have "sorted (map f (sort_key f xs))" by (rule sorted_sort_key)
  with ys have le: "\<forall>y \<in> set rest. f x \<le> f y" by simp
  from ys have mem: "set xs = insert x (set rest)"
    using \<open>set (sort_key f xs) = set xs\<close> by simp
  have "Min (set (map f xs)) = f x"
  proof (rule Min_eqI)
    show "finite (set (map f xs))" by simp
    show "f x \<in> set (map f xs)" using mem by simp
    fix y assume "y \<in> set (map f xs)"
    with mem le show "f x \<le> y" by auto
  qed
  with ys mem show ?thesis
    by (intro that [of x]) (simp_all add: sorted_first_def)
qed

lemma valid_txs_timestamp:
  "t \<in> set (valid_txs_of tx_list) \<Longrightarrow>
   blockTimestamp t = Some (timestamp_key t) \<and> timestamp_key t \<noteq> []"
  by (auto simp: valid_txs_of_def truthy_def timestamp_key_def split: option.splits)

text \<open>The creation time that \<^verbatim>\<open>get_address_details\<close> of \<^verbatim>\<open>scanner1.py\<close> returns is the
  earliest timestamp of the fetched transfers, parsed.\<close>

lemma scanner1_details_first_seen:
  assumes "a \<noteq> []" and "valid_txs_of (fetch_tx_list e a) \<noteq> []"
    and "fromisoformat e (replace_Z (first_seen (fetch_tx_list e a))) = Some ct"
  shows "\<exists>d. scanner1_get_address_details e (Some a) = Inr (Some d)
     \<and> creation_time d = Some ct \<and> tx_count d = length (fetch_tx_list e a)"
proof -
  from assms(2) obtain first_tx where
    f: "sorted_first timestamp_key (valid_txs_of (fetch_tx_list e a)) = Some first_tx"
      "first_tx \<in> set (valid_txs_of (fetch_tx_list e a))"
      "timestamp_key first_tx = first_seen (fetch_tx_list e a)"
    unfolding first_seen_def by (rule sorted_first_Min)
  from valid_txs_timestamp [OF f(2)] f(3) assms(3)
  have p: "parse_creation_time e (blockTimestamp first_tx) = Inr (Some ct)"
    by (simp add: parse_creation_time_def)
  from assms(2) have ne: "fetch_tx_list e a \<noteq> []"
    by (auto simp: valid_txs_of_def)
  show ?thesis
    using assms(1,2) ne f(1) p
    by (simp add: scanner1_get_address_details_def Let_def split: prod.splits)
qed

text \<open>The instant that \<^verbatim>\<open>get_true_age_via_history\<close> returns is the earliest time of the
  history, parsed.\<close>

lemma get_true_age_via_history_earliest:
  assumes "history e a = Some (HDict (Some history_list))"
    and "history_list \<noteq> []"
    and "\<forall>x \<in> set history_list. time x \<noteq> Null"
    and "earliest_time history_list \<noteq> []"
    and "earliest_time history_list \<noteq> ''9999-12-31''"
  shows "get_true_age_via_history e a
     = fromisoformat e (replace_Z (earliest_time history_list))"
proof -
  let ?k = "\<lambda>x. case history_key x of Some s \<Rightarrow> s | None \<Rightarrow> []"
  have keys: "?k x = (case time x of Present s \<Rightarrow> s | _ \<Rightarrow> ''9999-12-31'')"
    if "x \<in> set history_list" for x
    using that assms(3) by (cases "time x") (auto simp: history_key_def)
  then have "map ?k history_list
      = map (\<lambda>x. case time x of Present s \<Rightarrow> s | _ \<Rightarrow> ''9999-12-31'') history_list"
    by simp
  then have m: "Min (set (map ?k history_list)) = earliest_time history_list"
    by (simp only: earliest_time_def)
  from assms(2) obtain r where
    r: "sorted_first ?k history_list = Some r" "r \<in> set history_list"
      "?k r = Min (set (map ?k history_list))"
    by (rule sorted_first_Min)
  from r(2,3) m keys [OF r(2)] assms(3,5)
  have t: "time r = Present (earliest_time history_list)"
    by (cases "time r") auto
  from assms(3) have nonull: "\<not> list_ex (\<lambda>x. history_key x = None) history_list"
    by (auto simp: list_ex_iff history_key_def split: jfield.splits)
  show ?thesis
    using assms(1,2,4) nonull r(1) t
    by (simp add: get_true_age_via_history_def)
qed

text \<open>
  Claim C4.  Take a hop of \<^verbatim>\<open>scanner1.py\<close> whose capped lookup returned 100 transfers,
  the earliest timestamp among them less than a day old.  If the history of the
  address has records (none with a \<^verbatim>\<open>null\<close> time) and the earliest time among them
  parses to an instant (an older one in particular), the hop record carries the age
  counted from that instant, and it is a verified old wallet exactly when that age
  exceeds 180 days; it then is no distributor and contributes -10.
\<close>

theorem truncation_escalation:
  assumes "current_addr st = Some a" and "a \<noteq> []"
    and "tx_list = fetch_tx_list e a"
    and "length tx_list = 100"
    and "valid_txs_of tx_list \<noteq> []"
    and "fromisoformat e (replace_Z (first_seen tx_list)) = Some ct"
    and "dt_sub \<lparr>wall = clock e depth, utcoffset = Some 0\<rparr> ct = Inr delta"
    and "days delta < 1"
    and "history e a = Some (HDict (Some history_list))"
    and "history_list \<noteq> []"
    and "\<forall>x \<in> set history_list. time x \<noteq> Null"
    and "earliest_time history_list \<noteq> []"
    and "earliest_time history_list \<noteq> ''9999-12-31''"
    and "fromisoformat e (replace_Z (earliest_time history_list)) = Some true_creation_time"
    and "dt_sub \<lparr>wall = clock e depth, utcoffset = Some 0\<rparr> true_creation_time = Inr true_delta"
    and "scanner1_trace_body e depth st = Inr out"
  shows "length (chain_info st) < length (chain_info (state_of out)) \<and>
     (let h = chain_info (state_of out) ! length (chain_info st) in
        layer h = depth \<and> address h = Some a \<and> age_days h = days true_delta \<and>
        is_verified_old h = Some (180 < days true_delta) \<and>
        (if 180 < days true_delta
         then is_distributor h = Some False \<and> risk_contribution h = - 10
         else True))"
proof -
  from scanner1_details_first_seen [of a e ct] assms(2,3,5,6)
  obtain d where d: "scanner1_get_address_details e (Some a) = Inr (Some d)"
    "creation_time d = Some ct" "tx_count d = length (fetch_tx_list e a)"
    by auto
  from assms(3,4) have cap: "length (fetch_tx_list e a) = 100" by simp
  have hist: "get_true_age_via_history e a = Some true_creation_time"
    using get_true_age_via_history_earliest [OF assms(9,10,11,12,13)] assms(14) by simp
  show ?thesis
    by (rule truncation_escalation_resolved
        [OF assms(1) d(1) cap d(2) assms(7,8) hist assms(15,16)])
qed

text \<open>
  The capped lookup for the busy wallet \<open>H\<close> returns 100 transfers, the earliest twelve
  hours old; the earliest of the three records of its history is 200 days and twelve
  hours old.  The hop of \<open>H\<close> has the age 200 and is a verified old wallet.
\<close>

theorem truncation_escalation_witness:
  "length (fetch_tx_list long_history ''H'') = 100 \<and>
   first_seen (fetch_tx_list long_history ''H'') = ''2024-10-04T00:00:00Z'' \<and>
   (\<exists>out. scanner1_trace_body long_history 0
       \<lparr>chain_info = [], current_addr = Some ''H'', trace_risk_score = 0,
        trace_stop_reason = ''Max depth reached'', now = None\<rparr> = Inr out
     \<and> age_days (chain_info (state_of out) ! 0) = 200
     \<and> is_verified_old (chain_info (state_of out) ! 0) = Some True
     \<and> is_distributor (chain_info (state_of out) ! 0) = Some False
     \<and> risk_contribution (chain_info (state_of out) ! 0) = - 10)"
proof -
  let ?st = "\<lparr>chain_info = [], current_addr = Some ''H'', trace_risk_score = 0,
        trace_stop_reason = ''Max depth reached'', now = None\<rparr>"
  let ?hl = "[\<lparr>time = Present ''2024-09-24T00:00:00Z''\<rparr>, \<lparr>time = Absent\<rparr>,
        \<lparr>time = Present ''2024-03-18T00:00:00Z''\<rparr>]"
  have cur: "current_addr ?st = Some ''H''" "''H'' \<noteq> []" by simp_all
  have txs: "fetch_tx_list long_history ''H'' = fetch_tx_list long_history ''H''" ..
  have cap: "length (fetch_tx_list long_history ''H'') = 100"
    by code_simp
  have valid: "valid_txs_of (fetch_tx_list long_history ''H'') \<noteq> []"
    by code_simp
  have seen: "first_seen (fetch_tx_list long_history ''H'') = ''2024-10-04T00:00:00Z''"
    by code_simp
  have ct: "fromisoformat long_history (replace_Z (first_seen (fetch_tx_list long_history ''H'')))
      = Some \<lparr>wall = 1728000000000000, utcoffset = Some 0\<rparr>"
    unfolding seen by code_simp
  have delta: "dt_sub \<lparr>wall = clock long_history 0, utcoffset = Some 0\<rparr>
      \<lparr>wall = 1728000000000000, utcoffset = Some 0\<rparr> = Inr 43200000000"
    by (simp add: dt_sub_def long_history_def example_env_def)
  have young: "days 43200000000 < 1"
    by (simp add: days_def)
  have hist: "history long_history ''H'' = Some (HDict (Some ?hl))"
    by (simp add: long_history_def example_env_def)
  have recs: "?hl \<noteq> []" "\<forall>x \<in> set ?hl. time x \<noteq> Null"
    by simp_all
  have early: "earliest_time ?hl = ''2024-03-18T00:00:00Z''"
    by code_simp
  have early_ne: "earliest_time ?hl \<noteq> []" "earliest_time ?hl \<noteq> ''9999-12-31''"
    unfolding early by simp_all
  have tct: "fromisoformat long_history (replace_Z (earliest_time ?hl))
      = Some \<lparr>wall = 1710720000000000, utcoffset = Some 0\<rparr>"
    unfolding early by code_simp
  have true_delta: "dt_sub \<lparr>wall = clock long_history 0, utcoffset = Some 0\<rparr>
      \<lparr>wall = 1710720000000000, utcoffset = Some 0\<rparr> = Inr 17323200000000"
    by (simp add: dt_sub_def long_history_def example_env_def)
  have "case scanner1_trace_body long_history 0 ?st of Inr out \<Rightarrow> True | Inl _ \<Rightarrow> False"
    by code_simp
  then obtain out where run: "scanner1_trace_body long_history 0 ?st = Inr out"
    by (auto split: sum.splits)
  have d200: "days 17323200000000 = 200"
    by (simp add: days_def)
  from truncation_escalation [OF cur txs cap valid ct delta young hist recs early_ne tct
      true_delta run]
  have "age_days (chain_info (state_of out) ! 0) = 200
     \<and> is_verified_old (chain_info (state_of out) ! 0) = Some True
     \<and> is_distributor (chain_info (state_of out) ! 0) = Some False
     \<and> risk_contribution (chain_info (state_of out) ! 0) = - 10"
    by (simp add: Let_def d200)
  with cap seen run show ?thesis by blast
qed

section \<open>Lookup failure\<close>

lemma get_address_details_None:
  "(scanner1_get_address_details e addr = Inr None) = (\<not> truthy addr)"
  "(Scanner_get_address_details e addr = Inr None) = (\<not> truthy addr)"
  by (auto simp: scanner1_get_address_details_def Scanner_get_address_details_def truthy_def
      Let_def split: option.splits sum.splits prod.splits)

lemma trace_body_unresolved:
  "scanner1_get_address_details e (current_addr st) = Inr None \<Longrightarrow>
   scanner1_trace_body e depth st = Inr (Break st)"
  "Scanner_get_address_details e (current_addr st) = Inr None \<Longrightarrow>
   Scanner_trace_body e depth st = Inr (Break st)"
  by (simp_all add: scanner1_trace_body_def Scanner_trace_body_def)

lemma trace_funding_source_unresolved:
  assumes "\<not> truthy start"
  shows "scanner1_trace_funding_source e start max_depth =
      Inr \<lparr>score = 0, chain = [], stop_reason = ''Max depth reached''\<rparr>"
    and "Scanner_trace_funding_source e start max_depth =
      Inr \<lparr>score = 20, chain = [], stop_reason = ''Max depth reached''\<rparr>"
proof -
  have "[0 ..< max_depth + 1] = 0 # [1 ..< max_depth + 1]"
    by (simp add: upt_conv_Cons)
  with assms show "scanner1_trace_funding_source e start max_depth =
      Inr \<lparr>score = 0, chain = [], stop_reason = ''Max depth reached''\<rparr>"
    and "Scanner_trace_funding_source e start max_depth =
      Inr \<lparr>score = 20, chain = [], stop_reason = ''Max depth reached''\<rparr>"
    by (simp_all add: scanner1_trace_funding_source_def Scanner_trace_funding_source_def
        trace_body_unresolved get_address_details_None result_of_def)
qed

text \<open>
  Claim C9, as the code has it.  Resolving the details fails entirely exactly when the
  current address is absent or empty.  The loop then ends at once, whatever depths
  were left, and returns its state as it was: no hop is added and the stop reason is
  not set.  A trace started on such an address returns the initial stop reason
  \<^verbatim>\<open>Max depth reached\<close>; the code has no stop reason of its own for a failed lookup.
\<close>

theorem lookup_failure_stop:
  "((scanner1_get_address_details e addr = Inr None) = (\<not> truthy addr)) \<and>
   ((Scanner_get_address_details e addr = Inr None) = (\<not> truthy addr)) \<and>
   (scanner1_get_address_details e (current_addr st) = Inr None \<longrightarrow>
      scanner1_trace_loop e (depth # rest) st = Inr st) \<and>
   (Scanner_get_address_details e (current_addr st) = Inr None \<longrightarrow>
      Scanner_trace_loop e (depth # rest) st = Inr st) \<and>
   (\<not> truthy start \<longrightarrow>
      scanner1_trace_funding_source e start max_depth =
        Inr \<lparr>score = 0, chain = [], stop_reason = ''Max depth reached''\<rparr> \<and>
      Scanner_trace_funding_source e start max_depth =
        Inr \<lparr>score = 20, chain = [], stop_reason = ''Max depth reached''\<rparr>)"
  by (simp add: get_address_details_None trace_body_unresolved trace_funding_source_unresolved)

text \<open>
  The claim as stated fails: a trace whose first lookup fails (no deployer address)
  and a trace that runs through all four depths stop with the same reason.
\<close>

theorem lookup_failure_stop_counterexample:
  "scanner1_trace_funding_source silent None 3 =
     Inr \<lparr>score = 0, chain = [], stop_reason = ''Max depth reached''\<rparr> \<and>
   Scanner_trace_funding_source silent None 3 =
     Inr \<lparr>score = 20, chain = [], stop_reason = ''Max depth reached''\<rparr> \<and>
   map_sum id (length \<circ> chain) (scanner1_trace_funding_source four_hops (Some ''D'') 3) = Inr 4 \<and>
   map_sum id stop_reason (scanner1_trace_funding_source four_hops (Some ''D'') 3)
     = Inr ''Max depth reached'' \<and>
   map_sum id (length \<circ> chain) (Scanner_trace_funding_source four_hops (Some ''D'') 3) = Inr 4 \<and>
   map_sum id stop_reason (Scanner_trace_funding_source four_hops (Some ''D'') 3)
     = Inr ''Max depth reached''"
  by code_simp

text \<open>With no address to start from, both loops return their initial state.\<close>

theorem lookup_failure_stop_witness:
  "scanner1_get_address_details silent None = Inr None \<and>
   Scanner_get_address_details silent None = Inr None \<and>
   scanner1_trace_loop silent [0, 1, 2, 3]
     \<lparr>chain_info = [], current_addr = None, trace_risk_score = 0,
      trace_stop_reason = ''Max depth reached'', now = None\<rparr>
   = Inr \<lparr>chain_info = [], current_addr = None, trace_risk_score = 0,
      trace_stop_reason = ''Max depth reached'', now = None\<rparr> \<and>
   Scanner_trace_loop silent [0, 1, 2, 3]
     \<lparr>chain_info = [], current_addr = None, trace_risk_score = 0,
      trace_stop_reason = ''Max depth reached'', now = None\<rparr>
   = Inr \<lparr>chain_info = [], current_addr = None, trace_risk_score = 0,
      trace_stop_reason = ''Max depth reached'', now = None\<rparr> \<and>
   scanner1_trace_funding_source silent (Some []) 3 =
     Inr \<lparr>score = 0, chain = [], stop_reason = ''Max depth reached''\<rparr> \<and>
   Scanner_trace_funding_source silent (Some []) 3 =
     Inr \<lparr>score = 20, chain = [], stop_reason = ''Max depth reached''\<rparr>"
proof -
  let ?st = "\<lparr>chain_info = [], current_addr = None, trace_risk_score = 0,
      trace_stop_reason = ''Max depth reached'', now = None\<rparr>"
  have f: "\<not> truthy None" "\<not> truthy (Some [])" "current_addr ?st = None"
    by (simp_all add: truthy_def)
  with lookup_failure_stop [of silent None ?st 0 "[1, 2, 3]" "Some []" 3]
  show ?thesis by simp
qed

section \<open>Aggregation\<close>

lemma assess_token_risk_with_Report:
  assumes "assess_token_risk_with check_db trace label_of e token = Inr (Report tok r)"
  shows "tok = token \<and> trace e (deployer r) 3 = Inr (funding_analysis r)
     \<and> final_score r = aggregate (score (funding_analysis r))
     \<and> risk_label r = label_of (final_score r)"
  using assms
  by (auto simp: assess_token_risk_with_def Let_def
      split: sum.splits option.splits if_splits)

lemma aggregate_range:
  "aggregate t = max 0 (min 100 t)" "0 \<le> aggregate t" "aggregate t \<le> 100"
  by (simp_all add: aggregate_def)

text \<open>
  Claim C1.  Whenever \<^verbatim>\<open>assess_token_risk\<close> of either module returns a report, its final
  score is the score returned by \<^verbatim>\<open>trace_funding_source\<close> for the deployer, clamped by
  \<^verbatim>\<open>max(0, min(100, .))\<close>, and so lies between 0 and 100; the clamp brings every
  integer, negative ones included, into that range.
\<close>

theorem final_score_clamped:
  "(scanner1_assess_token_risk e token = Inr (Report tok r) \<longrightarrow>
      scanner1_trace_funding_source e (deployer r) 3 = Inr (funding_analysis r)
      \<and> final_score r = max 0 (min 100 (score (funding_analysis r)))
      \<and> 0 \<le> final_score r \<and> final_score r \<le> 100) \<and>
   (Scanner_assess_token_risk e token = Inr (Report tok' r') \<longrightarrow>
      Scanner_trace_funding_source e (deployer r') 3 = Inr (funding_analysis r')
      \<and> final_score r' = max 0 (min 100 (score (funding_analysis r')))
      \<and> 0 \<le> final_score r' \<and> final_score r' \<le> 100) \<and>
   aggregate trace_total = max 0 (min 100 trace_total) \<and>
   0 \<le> aggregate trace_total \<and> aggregate trace_total \<le> 100"
proof (intro conjI impI)
  assume "scanner1_assess_token_risk e token = Inr (Report tok r)"
  from assess_token_risk_with_Report [OF this [unfolded scanner1_assess_token_risk_def]]
  show "scanner1_trace_funding_source e (deployer r) 3 = Inr (funding_analysis r)"
    and "final_score r = max 0 (min 100 (score (funding_analysis r)))"
    and "0 \<le> final_score r" and "final_score r \<le> 100"
    by (simp_all add: aggregate_range)
next
  assume "Scanner_assess_token_risk e token = Inr (Report tok' r')"
  from assess_token_risk_with_Report [OF this [unfolded Scanner_assess_token_risk_def]]
  show "Scanner_trace_funding_source e (deployer r') 3 = Inr (funding_analysis r')"
    and "final_score r' = max 0 (min 100 (score (funding_analysis r')))"
    and "0 \<le> final_score r'" and "final_score r' \<le> 100"
    by (simp_all add: aggregate_range)
qed (simp_all add: aggregate_range)

text \<open>The trace of the token whose deployer was funded by Binance totals -60 in
  \<^verbatim>\<open>scanner1.py\<close>, and the final score is 0; the trace of the token with the chain of
  young wallets totals 110 in \<^verbatim>\<open>Scanner.py\<close>, and the final score is 100.\<close>

theorem final_score_clamped_witness:
  "(\<exists>r. scanner1_assess_token_risk entity_funded ''T'' = Inr (Report ''T'' r)
        \<and> score (funding_analysis r) = - 60 \<and> final_score r = 0) \<and>
   (\<exists>r. Scanner_assess_token_risk four_hops ''T'' = Inr (Report ''T'' r)
        \<and> score (funding_analysis r) = 110 \<and> final_score r = 100)"
proof -
  have "case scanner1_assess_token_risk entity_funded ''T'' of
          Inr (Report tok r) \<Rightarrow> tok = ''T'' \<and> score (funding_analysis r) = - 60
        | _ \<Rightarrow> False"
    by code_simp
  then obtain r where r: "scanner1_assess_token_risk entity_funded ''T'' = Inr (Report ''T'' r)"
    "score (funding_analysis r) = - 60"
    by (auto split: sum.splits assessment.splits)
  have "case Scanner_assess_token_risk four_hops ''T'' of
          Inr (Report tok r) \<Rightarrow> tok = ''T'' \<and> score (funding_analysis r) = 110
        | _ \<Rightarrow> False"
    by code_simp
  then obtain r' where r': "Scanner_assess_token_risk four_hops ''T'' = Inr (Report ''T'' r')"
    "score (funding_analysis r') = 110"
    by (auto split: sum.splits assessment.splits)
  from final_score_clamped [of entity_funded "''T''" "''T''" r] r
  have "final_score r = 0" by simp
  moreover from final_score_clamped [of four_hops "''T''" _ _ "''T''" r'] r'
  have "final_score r' = 100" by simp
  ultimately show ?thesis using r r' by blast
qed

section \<open>Absence of data\<close>

lemma get_address_details_no_history:
  assumes "a \<noteq> []" and "fetch_tx_list e a = []"
  shows "scanner1_get_address_details e (Some a) =
      Inr (Some \<lparr>d_address = a, creation_time = None, funder = None,
        funder_entity = None, tx_count = 0\<rparr>)"
    and "Scanner_get_address_details e (Some a) =
      Inr (Some \<lparr>d_address = a, creation_time = None, funder = None,
        funder_entity = None, tx_count = 0\<rparr>)"
  using assms
  by (simp_all add: scanner1_get_address_details_def Scanner_get_address_details_def)

lemma trace_funding_source_no_history:
  assumes "a \<noteq> []" and "fetch_tx_list e a = []"
  shows "scanner1_trace_funding_source e (Some a) max_depth =
      Inr \<lparr>score = 0,
           chain = [\<lparr>layer = 0, address = Some a, age_days = - 1, age_hours = Some 0,
             is_cex = False, is_verified_old = Some False, is_distributor = Some False,
             entity_name = None, risk_contribution = 0, funded_by_entity = None\<rparr>],
           stop_reason = ''No upstream funder found''\<rparr>"
    and "Scanner_trace_funding_source e (Some a) max_depth =
      Inr \<lparr>score = 20,
           chain = [\<lparr>layer = 0, address = Some a, age_days = - 1, age_hours = None,
             is_cex = False, is_verified_old = None, is_distributor = Some False,
             entity_name = None, risk_contribution = 0, funded_by_entity = None\<rparr>],
           stop_reason = ''No upstream funder found''\<rparr>"
proof -
  have ds: "[0 ..< max_depth + 1] = 0 # [1 ..< max_depth + 1]"
    by (simp add: upt_conv_Cons)
  show "scanner1_trace_funding_source e (Some a) max_depth =
      Inr \<lparr>score = 0,
           chain = [\<lparr>layer = 0, address = Some a, age_days = - 1, age_hours = Some 0,
             is_cex = False, is_verified_old = Some False, is_distributor = Some False,
             entity_name = None, risk_contribution = 0, funded_by_entity = None\<rparr>],
           stop_reason = ''No upstream funder found''\<rparr>"
    unfolding scanner1_trace_funding_source_def ds
    by (simp add: scanner1_trace_body_def
        get_address_details_no_history [OF assms] scanner1_age_def scanner1_true_age_def
        scanner1_dispersion_def scanner1_age_risk_def truthy_def result_of_def)
  show "Scanner_trace_funding_source e (Some a) max_depth =
      Inr \<lparr>score = 20,
           chain = [\<lparr>layer = 0, address = Some a, age_days = - 1, age_hours = None,
             is_cex = False, is_verified_old = None, is_distributor = Some False,
             entity_name = None, risk_contribution = 0, funded_by_entity = None\<rparr>],
           stop_reason = ''No upstream funder found''\<rparr>"
    unfolding Scanner_trace_funding_source_def ds
    by (simp add: Scanner_trace_body_def
        get_address_details_no_history [OF assms] Scanner_age_def Scanner_known_entity_def
        Scanner_dispersion_def Scanner_age_risk_def truthy_def result_of_def)
qed

lemma trace_funding_source_no_data:
  assumes "\<not> truthy dep \<or> (\<exists>a. dep = Some a \<and> fetch_tx_list e a = [])"
  shows "\<exists>fa. scanner1_trace_funding_source e dep max_depth = Inr fa \<and> score fa = 0"
    and "\<exists>fa. Scanner_trace_funding_source e dep max_depth = Inr fa \<and> score fa = 20"
proof -
  have "\<exists>fa. scanner1_trace_funding_source e dep max_depth = Inr fa \<and> score fa = 0"
    and "\<exists>fa. Scanner_trace_funding_source e dep max_depth = Inr fa \<and> score fa = 20"
    if "\<not> truthy dep"
    using that by (simp_all add: trace_funding_source_unresolved)
  moreover
  have "\<exists>fa. scanner1_trace_funding_source e dep max_depth = Inr fa \<and> score fa = 0"
    and "\<exists>fa. Scanner_trace_funding_source e dep max_depth = Inr fa \<and> score fa = 20"
    if "truthy dep"
  proof -
    from that assms have "\<exists>a. dep = Some a \<and> a \<noteq> [] \<and> fetch_tx_list e a = []"
      by (cases dep) (simp_all add: truthy_def)
    then obtain a where a: "dep = Some a" "a \<noteq> []" "fetch_tx_list e a = []"
      by blast
    show "\<exists>fa. scanner1_trace_funding_source e dep max_depth = Inr fa \<and> score fa = 0"
      unfolding a(1) trace_funding_source_no_history(1) [OF a(2,3)] by simp
    show "\<exists>fa. Scanner_trace_funding_source e dep max_depth = Inr fa \<and> score fa = 20"
      unfolding a(1) trace_funding_source_no_history(2) [OF a(2,3)] by simp
  qed
  ultimately
  show "\<exists>fa. scanner1_trace_funding_source e dep max_depth = Inr fa \<and> score fa = 0"
    and "\<exists>fa. Scanner_trace_funding_source e dep max_depth = Inr fa \<and> score fa = 20"
    by blast+
qed

lemma sorted_first_Some_nonempty:
  "sorted_first f xs = Some x \<Longrightarrow> xs \<noteq> []"
  by (auto simp: sorted_first_def)

lemma assess_token_risk_with_cases:
  assumes "check_db e token = Inr None"
    and "tx_list = normalize_transfers_list (transfers e (QBase token))"
  shows "tx_list = [] \<Longrightarrow>
      assess_token_risk_with check_db trace label_of e token
        = Inr (ErrorObject token ''No token history found'')"
    and "tx_list \<noteq> [] \<Longrightarrow> valid_txs_of tx_list = [] \<Longrightarrow>
      assess_token_risk_with check_db trace label_of e token
        = Inr (ErrorObject token ''No valid timestamp data'')"
    and "sorted_first timestamp_key (valid_txs_of tx_list) = Some first_tx \<Longrightarrow>
      trace e (deployer_of first_tx) 3 = Inr fa \<Longrightarrow>
      assess_token_risk_with check_db trace label_of e token
        = Inr (Report token \<lparr>deployer = deployer_of first_tx,
            final_score = aggregate (score fa),
            risk_label = label_of (aggregate (score fa)), funding_analysis = fa\<rparr>)"
proof -
  show "tx_list = [] \<Longrightarrow>
      assess_token_risk_with check_db trace label_of e token
        = Inr (ErrorObject token ''No token history found'')"
    using assms by (simp add: assess_token_risk_with_def)
  show "tx_list \<noteq> [] \<Longrightarrow> valid_txs_of tx_list = [] \<Longrightarrow>
      assess_token_risk_with check_db trace label_of e token
        = Inr (ErrorObject token ''No valid timestamp data'')"
    using assms by (simp add: assess_token_risk_with_def)
  assume sf: "sorted_first timestamp_key (valid_txs_of tx_list) = Some first_tx"
    and tr: "trace e (deployer_of first_tx) 3 = Inr fa"
  from sf have v: "valid_txs_of tx_list \<noteq> []" by (rule sorted_first_Some_nonempty)
  then have "tx_list \<noteq> []" by (auto simp: valid_txs_of_def)
  with v sf tr assms show "assess_token_risk_with check_db trace label_of e token
        = Inr (Report token \<lparr>deployer = deployer_of first_tx,
            final_score = aggregate (score fa),
            risk_label = label_of (aggregate (score fa)), funding_analysis = fa\<rparr>)"
    by (simp add: assess_token_risk_with_def Let_def)
qed

text \<open>
  Claim C8, as the code has it.  Let the database have no verdict on the token.  If
  the transfer lookup for the token fails or is empty, or none of its records has a
  timestamp, \<^verbatim>\<open>assess_token_risk\<close> returns an error object and no risk assessment.
  Absence of data past that point is no error: when the first transfer names no
  deployer, or the transfer lookups for the deployer yield no_txs, a report is
  returned, with score 0 and label \<^verbatim>\<open>LOW\<close> in \<^verbatim>\<open>scanner1.py\<close> and with score 20 and label
  \<^verbatim>\<open>LOW\<close> in \<^verbatim>\<open>Scanner.py\<close>.
\<close>

theorem absence_of_data:
  assumes "tx_list = normalize_transfers_list (transfers e (QBase token))"
  shows
    "(scanner1_check_database_status e token = Inr None \<longrightarrow>
        (tx_list = [] \<longrightarrow>
           scanner1_assess_token_risk e token
             = Inr (ErrorObject token ''No token history found'')) \<and>
        (tx_list \<noteq> [] \<and> valid_txs_of tx_list = [] \<longrightarrow>
           scanner1_assess_token_risk e token
             = Inr (ErrorObject token ''No valid timestamp data'')) \<and>
        (sorted_first timestamp_key (valid_txs_of tx_list) = Some first_tx \<and>
         (\<not> truthy (deployer_of first_tx) \<or>
          (\<exists>a. deployer_of first_tx = Some a \<and> fetch_tx_list e a = [])) \<longrightarrow>
           (\<exists>r. scanner1_assess_token_risk e token = Inr (Report token r)
              \<and> deployer r = deployer_of first_tx
              \<and> final_score r = 0 \<and> risk_label r = ''LOW''))) \<and>
     (Scanner_check_database_status e token = Inr None \<longrightarrow>
        (tx_list = [] \<longrightarrow>
           Scanner_assess_token_risk e token
             = Inr (ErrorObject token ''No token history found'')) \<and>
        (tx_list \<noteq> [] \<and> valid_txs_of tx_list = [] \<longrightarrow>
           Scanner_assess_token_risk e token
             = Inr (ErrorObject token ''No valid timestamp data'')) \<and>
        (sorted_first timestamp_key (valid_txs_of tx_list) = Some first_tx \<and>
         (\<not> truthy (deployer_of first_tx) \<or>
          (\<exists>a. deployer_of first_tx = Some a \<and> fetch_tx_list e a = [])) \<longrightarrow>
           (\<exists>r. Scanner_assess_token_risk e token = Inr (Report token r)
              \<and> deployer r = deployer_of first_tx
              \<and> final_score r = 20 \<and> risk_label r = ''LOW'')))"
proof (intro conjI impI; (elim conjE)?)
  assume db: "scanner1_check_database_status e token = Inr None"
  note c = assess_token_risk_with_cases [where check_db = scanner1_check_database_status
      and trace = scanner1_trace_funding_source and label_of = scanner1_label,
      OF db assms, folded scanner1_assess_token_risk_def]
  {
    assume "tx_list = []"
    then show "scanner1_assess_token_risk e token
        = Inr (ErrorObject token ''No token history found'')"
      by (rule c(1))
  next
    assume "tx_list \<noteq> []" "valid_txs_of tx_list = []"
    then show "scanner1_assess_token_risk e token
        = Inr (ErrorObject token ''No valid timestamp data'')"
      by (rule c(2))
  next
    assume sf: "sorted_first timestamp_key (valid_txs_of tx_list) = Some first_tx"
      and nd: "\<not> truthy (deployer_of first_tx) \<or>
          (\<exists>a. deployer_of first_tx = Some a \<and> fetch_tx_list e a = [])"
    from trace_funding_source_no_data(1) [OF nd] obtain fa where
      fa: "scanner1_trace_funding_source e (deployer_of first_tx) 3 = Inr fa" "score fa = 0"
      by blast
    from c(3) [OF sf fa(1)] fa(2)
    show "\<exists>r. scanner1_assess_token_risk e token = Inr (Report token r)
        \<and> deployer r = deployer_of first_tx \<and> final_score r = 0 \<and> risk_label r = ''LOW''"
      by (simp add: aggregate_def scanner1_label_def)
  }
next
  assume db: "Scanner_check_database_status e token = Inr None"
  note c = assess_token_risk_with_cases [where check_db = Scanner_check_database_status
      and trace = Scanner_trace_funding_source and label_of = Scanner_label,
      OF db assms, folded Scanner_assess_token_risk_def]
  {
    assume "tx_list = []"
    then show "Scanner_assess_token_risk e token
        = Inr (ErrorObject token ''No token history found'')"
      by (rule c(1))
  next
    assume "tx_list \<noteq> []" "valid_txs_of tx_list = []"
    then show "Scanner_assess_token_risk e token
        = Inr (ErrorObject token ''No valid timestamp data'')"
      by (rule c(2))
  next
    assume sf: "sorted_first timestamp_key (valid_txs_of tx_list) = Some first_tx"
      and nd: "\<not> truthy (deployer_of first_tx) \<or>
          (\<exists>a. deployer_of first_tx = Some a \<and> fetch_tx_list e a = [])"
    from trace_funding_source_no_data(2) [OF nd] obtain fa where
      fa: "Scanner_trace_funding_source e (deployer_of first_tx) 3 = Inr fa" "score fa = 20"
      by blast
    from c(3) [OF sf fa(1)] fa(2)
    show "\<exists>r. Scanner_assess_token_risk e token = Inr (Report token r)
        \<and> deployer r = deployer_of first_tx \<and> final_score r = 20 \<and> risk_label r = ''LOW''"
      by (simp add: aggregate_def Scanner_label_def)
  }
qed

text \<open>
  The claim as stated fails on its second half.  The first transfer of the token \<open>T\<close>
  names the deployer \<open>D\<close>, and every lookup for \<open>D\<close> fails: \<^verbatim>\<open>scanner1.py\<close> renders this
  absence of data as score 0 and label \<^verbatim>\<open>LOW\<close>.
\<close>

theorem absence_of_data_counterexample:
  "fetch_tx_list unresolved_deployer ''D'' = [] \<and>
   scanner1_assess_token_risk unresolved_deployer ''T'' =
     Inr (Report ''T''
       \<lparr>deployer = Some ''D'', final_score = 0, risk_label = ''LOW'',
        funding_analysis =
          \<lparr>score = 0,
           chain =
             [\<lparr>layer = 0, address = Some ''D'', age_days = - 1, age_hours = Some 0,
               is_cex = False, is_verified_old = Some False, is_distributor = Some False,
               entity_name = None, risk_contribution = 0, funded_by_entity = None\<rparr>],
           stop_reason = ''No upstream funder found''\<rparr>\<rparr>)"
  by code_simp

text \<open>When every request fails, or the records of \<open>T\<close> have no timestamp, the
  assessment of \<open>T\<close> is an error object; when only the deployer of \<open>T\<close> is known, it is
  a report with the score of an empty trace.\<close>

theorem absence_of_data_witness:
  "scanner1_assess_token_risk silent ''T'' = Inr (ErrorObject ''T'' ''No token history found'') \<and>
   Scanner_assess_token_risk silent ''T'' = Inr (ErrorObject ''T'' ''No token history found'') \<and>
   scanner1_assess_token_risk untimed ''T'' = Inr (ErrorObject ''T'' ''No valid timestamp data'') \<and>
   Scanner_assess_token_risk untimed ''T'' = Inr (ErrorObject ''T'' ''No valid timestamp data'') \<and>
   (\<exists>r. scanner1_assess_token_risk unresolved_deployer ''T'' = Inr (Report ''T'' r)
        \<and> deployer r = Some ''D'' \<and> final_score r = 0 \<and> risk_label r = ''LOW'') \<and>
   (\<exists>r. Scanner_assess_token_risk unresolved_deployer ''T'' = Inr (Report ''T'' r)
        \<and> deployer r = Some ''D'' \<and> final_score r = 20 \<and> risk_label r = ''LOW'')"
proof -
  let ?tx = "transfer_at ''2024-10-04T00:00:00Z'' ''D'' ''P'' Absent"
  have db: "scanner1_check_database_status silent ''T'' = Inr None"
    "Scanner_check_database_status silent ''T'' = Inr None"
    "scanner1_check_database_status unresolved_deployer ''T'' = Inr None"
    "Scanner_check_database_status unresolved_deployer ''T'' = Inr None"
    "scanner1_check_database_status untimed ''T'' = Inr None"
    "Scanner_check_database_status untimed ''T'' = Inr None"
    by code_simp+
  let ?ut = "(transfer_at [] ''D'' ''P'' Absent)\<lparr>blockTimestamp := None\<rparr>"
  have ut: "[?ut] = normalize_transfers_list (transfers untimed (QBase ''T''))"
    by code_simp
  have invalid: "valid_txs_of [?ut] = []"
    by code_simp
  have none: "[] = normalize_transfers_list (transfers silent (QBase ''T''))"
    by code_simp
  have one: "[?tx] = normalize_transfers_list (transfers unresolved_deployer (QBase ''T''))"
    by code_simp
  have first: "sorted_first timestamp_key (valid_txs_of [?tx]) = Some ?tx"
    by code_simp
  have dep: "deployer_of ?tx = Some ''D''"
    by code_simp
  have no_txs: "fetch_tx_list unresolved_deployer ''D'' = []"
    by code_simp
  from absence_of_data [OF none, of ?tx]
  have "scanner1_assess_token_risk silent ''T'' = Inr (ErrorObject ''T'' ''No token history found'')"
    and "Scanner_assess_token_risk silent ''T'' = Inr (ErrorObject ''T'' ''No token history found'')"
    by (simp_all add: db)
  moreover
  from absence_of_data [OF ut, of ?ut]
  have "scanner1_assess_token_risk untimed ''T'' = Inr (ErrorObject ''T'' ''No valid timestamp data'')"
    and "Scanner_assess_token_risk untimed ''T'' = Inr (ErrorObject ''T'' ''No valid timestamp data'')"
    by (simp_all add: db invalid)
  moreover
  from absence_of_data [OF one, of ?tx]
  have "\<exists>r. scanner1_assess_token_risk unresolved_deployer ''T'' = Inr (Report ''T'' r)
        \<and> deployer r = Some ''D'' \<and> final_score r = 0 \<and> risk_label r = ''LOW''"
    and "\<exists>r. Scanner_assess_token_risk unresolved_deployer ''T'' = Inr (Report ''T'' r)
        \<and> deployer r = Some ''D'' \<and> final_score r = 20 \<and> risk_label r = ''LOW''"
    by (simp_all add: db first dep no_txs)
  ultimately show ?thesis by blast
qed

section \<open>Established entities\<close>

lemma check_database_status_with_established:
  assumes "intelligence e token = Some data"
    and "arkhamEntity data = Some ent"
    and "full_name_of (name_or_unknown (Some ent)) (name_or_unknown (arkhamLabel data))
       = Inr full_name"
    and "\<not> list_ex (\<lambda>k. contains full_name k) bad"
    and "\<not> list_ex (\<lambda>k. contains full_name k) cex"
  shows "\<exists>v. check_database_status_with bad cex sc e token = Inr (Some v)
     \<and> status v = ''KNOWN'' \<and> label v = ''LOW'' \<and> risk_score v = sc
     \<and> reason v = ''Known Entity''"
  using assms
  by (simp add: check_database_status_with_def Let_def)

lemma check_database_status_with_label_only:
  assumes "intelligence e token = Some data"
    and "arkhamEntity data = None"
    and "full_name_of (name_or_unknown None) (name_or_unknown (arkhamLabel data))
       = Inr full_name"
    and "\<not> list_ex (\<lambda>k. contains full_name k) bad"
    and "\<not> list_ex (\<lambda>k. contains full_name k) cex"
  shows "check_database_status_with bad cex sc e token = Inr None"
  using assms
  by (simp add: check_database_status_with_def Let_def)

text \<open>
  Claim C7, as the code has it.  Let the lookup return an entity object, and let the
  lower-cased text of entity name and label name contain no blacklist keyword and no
  trusted-issuer keyword.  Then the verdict is \<^verbatim>\<open>KNOWN\<close> with label \<^verbatim>\<open>LOW\<close>; its score
  is 10 in \<^verbatim>\<open>scanner1.py\<close>, which tells it from the 0 of a trusted issuer, and 0 in
  \<^verbatim>\<open>Scanner.py\<close>, which does not.  When the lookup returns a label object only,
  there is no verdict, although the text is not empty.
\<close>

theorem established_entity_verdict:
  assumes "intelligence e token = Some data"
    and "full_name_of (name_or_unknown (arkhamEntity data)) (name_or_unknown (arkhamLabel data))
       = Inr full_name"
  shows
    "(arkhamEntity data \<noteq> None
        \<and> \<not> list_ex (\<lambda>k. contains full_name k) scanner1_bad_keywords
        \<and> \<not> list_ex (\<lambda>k. contains full_name k) scanner1_cex_keywords \<longrightarrow>
        (\<exists>v. scanner1_check_database_status e token = Inr (Some v)
           \<and> status v = ''KNOWN'' \<and> label v = ''LOW'' \<and> risk_score v = 10)) \<and>
     (arkhamEntity data \<noteq> None
        \<and> \<not> list_ex (\<lambda>k. contains full_name k) Scanner_bad_keywords
        \<and> \<not> list_ex (\<lambda>k. contains full_name k) Scanner_cex_keywords \<longrightarrow>
        (\<exists>v. Scanner_check_database_status e token = Inr (Some v)
           \<and> status v = ''KNOWN'' \<and> label v = ''LOW'' \<and> risk_score v = 0)) \<and>
     (arkhamEntity data = None
        \<and> \<not> list_ex (\<lambda>k. contains full_name k) scanner1_bad_keywords
        \<and> \<not> list_ex (\<lambda>k. contains full_name k) scanner1_cex_keywords \<longrightarrow>
        scanner1_check_database_status e token = Inr None) \<and>
     (arkhamEntity data = None
        \<and> \<not> list_ex (\<lambda>k. contains full_name k) Scanner_bad_keywords
        \<and> \<not> list_ex (\<lambda>k. contains full_name k) Scanner_cex_keywords \<longrightarrow>
        Scanner_check_database_status e token = Inr None)"
proof (intro conjI impI; elim conjE)
  assume ent: "arkhamEntity data \<noteq> None"
    and no: "\<not> list_ex (\<lambda>k. contains full_name k) scanner1_bad_keywords"
      "\<not> list_ex (\<lambda>k. contains full_name k) scanner1_cex_keywords"
  from ent obtain en where en: "arkhamEntity data = Some en" by blast
  from check_database_status_with_established [OF assms(1) en assms(2) [unfolded en] no,
      of 10]
  show "\<exists>v. scanner1_check_database_status e token = Inr (Some v)
      \<and> status v = ''KNOWN'' \<and> label v = ''LOW'' \<and> risk_score v = 10"
    unfolding scanner1_check_database_status_def by blast
next
  assume ent: "arkhamEntity data \<noteq> None"
    and no: "\<not> list_ex (\<lambda>k. contains full_name k) Scanner_bad_keywords"
      "\<not> list_ex (\<lambda>k. contains full_name k) Scanner_cex_keywords"
  from ent obtain en where en: "arkhamEntity data = Some en" by blast
  from check_database_status_with_established [OF assms(1) en assms(2) [unfolded en] no,
      of 0]
  show "\<exists>v. Scanner_check_database_status e token = Inr (Some v)
      \<and> status v = ''KNOWN'' \<and> label v = ''LOW'' \<and> risk_score v = 0"
    unfolding Scanner_check_database_status_def by blast
next
  assume ent: "arkhamEntity data = None"
    and no: "\<not> list_ex (\<lambda>k. contains full_name k) scanner1_bad_keywords"
      "\<not> list_ex (\<lambda>k. contains full_name k) scanner1_cex_keywords"
  from check_database_status_with_label_only [OF assms(1) ent assms(2) [unfolded ent] no]
  show "scanner1_check_database_status e token = Inr None"
    unfolding scanner1_check_database_status_def .
next
  assume ent: "arkhamEntity data = None"
    and no: "\<not> list_ex (\<lambda>k. contains full_name k) Scanner_bad_keywords"
      "\<not> list_ex (\<lambda>k. contains full_name k) Scanner_cex_keywords"
  from check_database_status_with_label_only [OF assms(1) ent assms(2) [unfolded ent] no]
  show "Scanner_check_database_status e token = Inr None"
    unfolding Scanner_check_database_status_def .
qed

text \<open>
  The claim as stated fails twice.  For the entity Raydium, which matches no keyword,
  \<^verbatim>\<open>Scanner.py\<close> returns the score 0, as it does for a trusted issuer; for an address
  that carries the label \<open>Liquidity Pool\<close> and no entity, \<^verbatim>\<open>scanner1.py\<close> returns no
  verdict.
\<close>

theorem established_entity_verdict_counterexample:
  "Scanner_check_database_status
     (known_token \<lparr>arkhamEntity = Some \<lparr>name = Present ''Raydium''\<rparr>, arkhamLabel = None\<rparr>) ''T''
   = Inr (Some \<lparr>status = ''KNOWN'', risk_score = 0, label = ''LOW'',
        flags = [''Established Project: Raydium''], entity = ''Raydium'',
        reason = ''Known Entity''\<rparr>) \<and>
   Scanner_check_database_status
     (known_token \<lparr>arkhamEntity = Some \<lparr>name = Present ''Binance Hot Wallet''\<rparr>,
        arkhamLabel = None\<rparr>) ''T''
   = Inr (Some \<lparr>status = ''KNOWN'', risk_score = 0, label = ''LOW'',
        flags = [''Trusted Entity Verified: Binance Hot Wallet''],
        entity = ''Binance Hot Wallet'', reason = ''Trusted Issuer''\<rparr>) \<and>
   full_name_of (name_or_unknown None) (name_or_unknown (Some \<lparr>name = Present ''Liquidity Pool''\<rparr>))
   = Inr ''unknown liquidity pool'' \<and>
   scanner1_check_database_status
     (known_token \<lparr>arkhamEntity = None,
        arkhamLabel = Some \<lparr>name = Present ''Liquidity Pool''\<rparr>\<rparr>) ''T''
   = Inr None"
  by code_simp

text \<open>The two verdicts on Raydium, and none on the label \<open>Liquidity Pool\<close>.\<close>

theorem established_entity_verdict_witness:
  "(\<exists>v. scanner1_check_database_status
          (known_token \<lparr>arkhamEntity = Some \<lparr>name = Present ''Raydium''\<rparr>,
             arkhamLabel = None\<rparr>) ''T'' = Inr (Some v)
        \<and> status v = ''KNOWN'' \<and> label v = ''LOW'' \<and> risk_score v = 10) \<and>
   (\<exists>v. Scanner_check_database_status
          (known_token \<lparr>arkhamEntity = Some \<lparr>name = Present ''Raydium''\<rparr>,
             arkhamLabel = None\<rparr>) ''T'' = Inr (Some v)
        \<and> status v = ''KNOWN'' \<and> label v = ''LOW'' \<and> risk_score v = 0) \<and>
   scanner1_check_database_status
     (known_token \<lparr>arkhamEntity = None,
        arkhamLabel = Some \<lparr>name = Present ''Liquidity Pool''\<rparr>\<rparr>) ''T'' = Inr None \<and>
   Scanner_check_database_status
     (known_token \<lparr>arkhamEntity = None,
        arkhamLabel = Some \<lparr>name = Present ''Liquidity Pool''\<rparr>\<rparr>) ''T'' = Inr None"
proof -
  let ?ray = "\<lparr>arkhamEntity = Some \<lparr>name = Present ''Raydium''\<rparr>, arkhamLabel = None\<rparr>"
  let ?pool = "\<lparr>arkhamEntity = None, arkhamLabel = Some \<lparr>name = Present ''Liquidity Pool''\<rparr>\<rparr>"
  have i: "intelligence (known_token ?ray) ''T'' = Some ?ray"
    "intelligence (known_token ?pool) ''T'' = Some ?pool"
    by (simp_all add: known_token_def example_env_def)
  have n: "full_name_of (name_or_unknown (arkhamEntity ?ray)) (name_or_unknown (arkhamLabel ?ray))
      = Inr ''raydium unknown''"
    "full_name_of (name_or_unknown (arkhamEntity ?pool)) (name_or_unknown (arkhamLabel ?pool))
      = Inr ''unknown liquidity pool''"
    by code_simp+
  have k: "\<not> list_ex (\<lambda>k. contains ''raydium unknown'' k) scanner1_bad_keywords"
    "\<not> list_ex (\<lambda>k. contains ''raydium unknown'' k) scanner1_cex_keywords"
    "\<not> list_ex (\<lambda>k. contains ''raydium unknown'' k) Scanner_bad_keywords"
    "\<not> list_ex (\<lambda>k. contains ''raydium unknown'' k) Scanner_cex_keywords"
    "\<not> list_ex (\<lambda>k. contains ''unknown liquidity pool'' k) scanner1_bad_keywords"
    "\<not> list_ex (\<lambda>k. contains ''unknown liquidity pool'' k) scanner1_cex_keywords"
    "\<not> list_ex (\<lambda>k. contains ''unknown liquidity pool'' k) Scanner_bad_keywords"
    "\<not> list_ex (\<lambda>k. contains ''unknown liquidity pool'' k) Scanner_cex_keywords"
    by code_simp+
  have ne: "arkhamEntity ?ray \<noteq> None" "arkhamEntity ?pool = None"
    by simp_all
  from established_entity_verdict [OF i(1) n(1)] ne(1) k(1-4)
  have "\<exists>v. scanner1_check_database_status (known_token ?ray) ''T'' = Inr (Some v)
        \<and> status v = ''KNOWN'' \<and> label v = ''LOW'' \<and> risk_score v = 10"
    and "\<exists>v. Scanner_check_database_status (known_token ?ray) ''T'' = Inr (Some v)
        \<and> status v = ''KNOWN'' \<and> label v = ''LOW'' \<and> risk_score v = 0"
    by blast+
  moreover from established_entity_verdict [OF i(2) n(2)] ne(2) k(5-8)
  have "scanner1_check_database_status (known_token ?pool) ''T'' = Inr None"
    and "Scanner_check_database_status (known_token ?pool) ''T'' = Inr None"
    by blast+
  ultimately show ?thesis by blast
qed

end
